theory Spec2Isabelle
  imports Complex_Main "HOL-Library.Multiset"
begin

section \<open>The matvec kernel driver of MueLu: backend selection\<close>

text \<open>
  The definitions of this section follow \<^verbatim>\<open>main_\<close> of
  \<^verbatim>\<open>packages/muelu/test/scaling/MatvecKernelDriver.cpp\<close>. The preprocessor
  symbols the function branches on are the fields of a record, so that one model covers
  every build of the file.
\<close>

datatype Experiments = MKL | TPETRA | KK | CUSPARSE | MAGMASPARSE | HYPRE | PETSC

record build_config =
  HAVE_MUELU_MKL :: bool
  HAVE_MUELU_CUSPARSE :: bool
  HAVE_MUELU_MAGMASPARSE :: bool
  HAVE_MUELU_HYPRE :: bool
  HAVE_MUELU_PETSC :: bool
  HAVE_MUELU_TPETRA :: bool
  HAVE_MPI :: bool
  node_is_cuda :: bool

text \<open>The seven \<^verbatim>\<open>do_*\<close> booleans of \<^verbatim>\<open>main_\<close>, and the report switch.\<close>

record kernel_flags =
  do_mkl :: bool
  do_tpetra :: bool
  do_kk :: bool
  do_cusparse :: bool
  do_magmasparse :: bool
  do_hypre :: bool
  do_petsc :: bool

text \<open>
  What the command line says about each kernel: \<open>None\<close> when neither form of the option
  is given, \<open>Some True\<close> for \<^verbatim>\<open>--mkl\<close>, \<open>Some False\<close> for \<^verbatim>\<open>--nomkl\<close>.
\<close>

record cmdline =
  opt_mkl :: "bool option"
  opt_tpetra :: "bool option"
  opt_kk :: "bool option"
  opt_cusparse :: "bool option"
  opt_magmasparse :: "bool option"
  opt_hypre :: "bool option"
  opt_petsc :: "bool option"

text \<open>Lines 1130 to 1154: every kernel is on, then the absent libraries are switched off.\<close>

definition default_flags :: "build_config \<Rightarrow> kernel_flags" where
  "default_flags cfg =
     \<lparr> do_mkl = HAVE_MUELU_MKL cfg,
       do_tpetra = True,
       do_kk = True,
       do_cusparse = HAVE_MUELU_CUSPARSE cfg,
       do_magmasparse = HAVE_MUELU_MAGMASPARSE cfg,
       do_hypre = (HAVE_MUELU_HYPRE cfg \<and> HAVE_MPI cfg),
       do_petsc = (HAVE_MUELU_PETSC cfg \<and> HAVE_MPI cfg) \<rparr>"

text \<open>\<^verbatim>\<open>clp.setOption\<close> and \<^verbatim>\<open>clp.parse\<close>: an option given overwrites the default.\<close>

definition setOption :: "bool option \<Rightarrow> bool \<Rightarrow> bool" where
  "setOption opt dflt = (case opt of None \<Rightarrow> dflt | Some b \<Rightarrow> b)"

definition parse :: "cmdline \<Rightarrow> kernel_flags \<Rightarrow> kernel_flags" where
  "parse cl f =
     \<lparr> do_mkl = setOption (opt_mkl cl) (do_mkl f),
       do_tpetra = setOption (opt_tpetra cl) (do_tpetra f),
       do_kk = setOption (opt_kk cl) (do_kk f),
       do_cusparse = setOption (opt_cusparse cl) (do_cusparse f),
       do_magmasparse = setOption (opt_magmasparse cl) (do_magmasparse f),
       do_hypre = setOption (opt_hypre cl) (do_hypre f),
       do_petsc = setOption (opt_petsc cl) (do_petsc f) \<rparr>"

text \<open>
  Lines 1187 to 1227. The state is the flags and the lines written to \<^verbatim>\<open>out\<close>. Each
  block is one function, in the order of the source; the last one tests
  \<^verbatim>\<open>do_hypre\<close>, as the source does.
\<close>

type_synonym setup_state = "kernel_flags \<times> string list"

definition check_kk :: "nat \<Rightarrow> setup_state \<Rightarrow> setup_state" where
  "check_kk numProc s =
     (case s of (f, out) \<Rightarrow>
        if do_kk f \<and> numProc > 1
        then (f\<lparr>do_kk := False\<rparr>,
              out @ [''KK was requested, but this kernel this cannot be run on more than one rank. Disabling...''])
        else s)"

definition check_mkl :: "build_config \<Rightarrow> setup_state \<Rightarrow> setup_state" where
  "check_mkl cfg s =
     (case s of (f, out) \<Rightarrow>
        if \<not> HAVE_MUELU_MKL cfg \<and> do_mkl f
        then (f\<lparr>do_mkl := False\<rparr>,
              out @ [''MKL was requested, but this kernel is not available. Disabling...''])
        else s)"

definition check_cusparse :: "build_config \<Rightarrow> setup_state \<Rightarrow> setup_state" where
  "check_cusparse cfg s =
     (case s of (f, out) \<Rightarrow>
        if \<not> HAVE_MUELU_CUSPARSE cfg
        then (if do_cusparse f
              then (f\<lparr>do_cusparse := False\<rparr>,
                    out @ [''CuSparse was requested, but this kernel is not available. Disabling...''])
              else s)
        else (if \<not> node_is_cuda cfg then (f\<lparr>do_cusparse := False\<rparr>, out) else s))"

definition check_magmasparse :: "build_config \<Rightarrow> setup_state \<Rightarrow> setup_state" where
  "check_magmasparse cfg s =
     (case s of (f, out) \<Rightarrow>
        if \<not> HAVE_MUELU_MAGMASPARSE cfg \<and> do_magmasparse f
        then (f\<lparr>do_magmasparse := False\<rparr>,
              out @ [''MagmaSparse was requested, but this kernel is not available. Disabling...''])
        else s)"

definition check_hypre :: "build_config \<Rightarrow> setup_state \<Rightarrow> setup_state" where
  "check_hypre cfg s =
     (case s of (f, out) \<Rightarrow>
        if \<not> HAVE_MUELU_HYPRE cfg \<and> do_hypre f
        then (f\<lparr>do_hypre := False\<rparr>,
              out @ [''Hypre was requested, but this kernel is not available. Disabling...''])
        else s)"

definition check_petsc :: "build_config \<Rightarrow> setup_state \<Rightarrow> setup_state" where
  "check_petsc cfg s =
     (case s of (f, out) \<Rightarrow>
        if \<not> HAVE_MUELU_PETSC cfg \<and> do_hypre f
        then (f\<lparr>do_petsc := False\<rparr>,
              out @ [''Petsc was requested, but this kernel is not available. Disabling...''])
        else s)"

definition disable_unavailable :: "build_config \<Rightarrow> nat \<Rightarrow> setup_state \<Rightarrow> setup_state" where
  "disable_unavailable cfg numProc s =
     check_petsc cfg (check_hypre cfg (check_magmasparse cfg (check_cusparse cfg
       (check_mkl cfg (check_kk numProc s)))))"

text \<open>Lines 1240 to 1265: the experiment list, in the order of the \<^verbatim>\<open>push_back\<close> calls.\<close>

definition push_back_if :: "bool \<Rightarrow> 'a \<Rightarrow> 'a list \<Rightarrow> 'a list" where
  "push_back_if c e xs = (if c then xs @ [e] else xs)"

definition add_experiments :: "build_config \<Rightarrow> kernel_flags \<Rightarrow> Experiments list" where
  "add_experiments cfg f =
     push_back_if (do_kk f) KK
      (push_back_if (do_tpetra f) TPETRA
        (push_back_if (HAVE_MUELU_PETSC cfg \<and> HAVE_MPI cfg \<and> do_petsc f) PETSC
          (push_back_if (HAVE_MUELU_HYPRE cfg \<and> HAVE_MPI cfg \<and> do_hypre f) HYPRE
            (push_back_if (HAVE_MUELU_MAGMASPARSE cfg \<and> do_magmasparse f) MAGMASPARSE
              (push_back_if (HAVE_MUELU_CUSPARSE cfg \<and> do_cusparse f) CUSPARSE
                (push_back_if (HAVE_MUELU_MKL cfg \<and> do_mkl f) MKL []))))))"

text \<open>The whole set-up: the flags after the checks, the warnings, the experiment list.\<close>

definition setup_flags :: "build_config \<Rightarrow> cmdline \<Rightarrow> nat \<Rightarrow> setup_state" where
  "setup_flags cfg cl numProc = disable_unavailable cfg numProc (parse cl (default_flags cfg), [])"

definition my_experiments :: "build_config \<Rightarrow> cmdline \<Rightarrow> nat \<Rightarrow> Experiments list" where
  "my_experiments cfg cl numProc = add_experiments cfg (fst (setup_flags cfg cl numProc))"

text \<open>A build with Tpetra and MPI and none of the optional libraries.\<close>

definition plain_build :: build_config where
  "plain_build =
     \<lparr> HAVE_MUELU_MKL = False, HAVE_MUELU_CUSPARSE = False, HAVE_MUELU_MAGMASPARSE = False,
       HAVE_MUELU_HYPRE = False, HAVE_MUELU_PETSC = False, HAVE_MUELU_TPETRA = True,
       HAVE_MPI = True, node_is_cuda = False \<rparr>"

definition no_options :: cmdline where
  "no_options =
     \<lparr> opt_mkl = None, opt_tpetra = None, opt_kk = None, opt_cusparse = None,
       opt_magmasparse = None, opt_hypre = None, opt_petsc = None \<rparr>"

section \<open>The analytic cost reporter\<close>

text \<open>
  The definitions of this section follow \<^verbatim>\<open>report_performance_models\<close> (lines 143 to
  431 of the driver). A \<^verbatim>\<open>double\<close> is modelled by a real number: rounding is not
  modelled, and nothing is stated about an input that makes a denominator zero, where the
  machine arithmetic gives an infinity or a NaN and \<open>x / 0 = 0\<close> in HOL. Integers keep
  their widths: \<^verbatim>\<open>int\<close> is 32 bits and signed, \<^verbatim>\<open>size_t\<close> and
  \<^verbatim>\<open>long unsigned int\<close> are 64 bits and unsigned, and each conversion is written out.
\<close>

definition to_int :: "int \<Rightarrow> int" where
  "to_int v = (v + 2 ^ 31) mod 2 ^ 32 - 2 ^ 31"

definition to_size_t :: "int \<Rightarrow> int" where
  "to_size_t v = v mod 2 ^ 64"

text \<open>
  The template parameters \<^verbatim>\<open>SC\<close> and \<^verbatim>\<open>LO\<close> enter through their sizes only;
  \<^verbatim>\<open>rowptr_type\<close> is hardwired to \<^verbatim>\<open>size_t\<close>.
\<close>

record type_sizes =
  sizeof_SC :: nat
  sizeof_LO :: nat

definition sizeof_rowptr_type :: nat where
  "sizeof_rowptr_type = 8"

text \<open>
  What the function reads of the importer of the matrix's graph: the four counts, and
  the message lengths of the distributor. The distributor is \<open>None\<close> when the importer
  is not a \<^verbatim>\<open>TpetraImport\<close> or the file is built without Tpetra.
\<close>

record importer =
  NumSameIDs :: nat
  NumPermuteIDs :: nat
  NumExportIDs :: nat
  NumRemoteIDs :: nat
  Distributor :: "(nat list \<times> nat list) option"

text \<open>
  What the function reads of the matrix on one process. \<open>Importer = None\<close> is the null
  \<^verbatim>\<open>RCP\<close> that \<^verbatim>\<open>getImporter\<close> returns for a graph with no importer.
\<close>

record matrix =
  LocalNumRows :: nat
  ColMapLocalNumElements :: nat
  entries_extent :: nat
  hasCrsGraph :: bool
  Importer :: "importer option"

text \<open>
  \<^verbatim>\<open>MueLu::PerfModels\<close> is declared in \<^verbatim>\<open>MueLu_PerfModels.hpp\<close>, which is not among
  the sources: its lookups are parameters, one function from the argument the driver
  passes to the time in seconds the table gives.
\<close>

record PerfModels =
  stream_vector_lookup :: "int \<Rightarrow> real"
  latency_corrected_stream_vector_lookup :: "int \<Rightarrow> real"
  launch_latency_lookup :: real
  pingpong_device_lookup :: "int \<Rightarrow> real"
  halopong_device_lookup :: "real \<Rightarrow> real"

text \<open>One process of the communicator: its part of the matrix and its tables.\<close>

record rank_data =
  A :: matrix
  PM :: PerfModels

datatype error = NullReference | RangeError

definition GB :: real where
  "GB = 1024 * 1024 * 1024"

definition convert_time_to_bandwidth_gbs :: "real \<Rightarrow> int \<Rightarrow> real \<Rightarrow> real" where
  "convert_time_to_bandwidth_gbs time num_calls memory_per_call_bytes =
     (let time_per_call = time / real_of_int num_calls
      in memory_per_call_bytes / GB / time_per_call)"

text \<open>Lines 157 to 159: the three dimensions, each cast to \<^verbatim>\<open>int\<close>.\<close>

definition dim_m :: "matrix \<Rightarrow> int" where
  "dim_m a = to_int (int (LocalNumRows a))"

definition dim_n :: "matrix \<Rightarrow> int" where
  "dim_n a = to_int (int (ColMapLocalNumElements a))"

definition dim_nnz :: "matrix \<Rightarrow> int" where
  "dim_nnz a = to_int (int (entries_extent a))"

text \<open>
  Lines 169 to 177. The importer is dereferenced with no test for null; the result says
  whether \<^verbatim>\<open>halopong_make_table\<close> is called.
\<close>

definition make_halopong_table :: "matrix \<Rightarrow> error + bool" where
  "make_halopong_table a =
     (if hasCrsGraph a
      then (case Importer a of None \<Rightarrow> Inl NullReference | Some imp \<Rightarrow> Inr True)
      else Inr False)"

text \<open>
  Lines 196 to 211: the three arrays of the local time model, index 0 to 5 for
  \<^verbatim>\<open>colind\<close>, \<^verbatim>\<open>rowptr\<close>, \<^verbatim>\<open>vals\<close>, \<^verbatim>\<open>x\<close>, \<^verbatim>\<open>y\<close>, \<^verbatim>\<open>all\<close>. The sum at index 5 is
  computed in \<^verbatim>\<open>size_t\<close> and stored into an \<^verbatim>\<open>int\<close>.
\<close>

definition all_bytes_size_t :: "type_sizes \<Rightarrow> matrix \<Rightarrow> int" where
  "all_bytes_size_t ts a =
     to_size_t (to_size_t (to_size_t (to_size_t
       (to_size_t (to_int (dim_m a + 1) * int sizeof_rowptr_type)
        + to_size_t (dim_nnz a * int (sizeof_LO ts)))
        + to_size_t (dim_nnz a * int (sizeof_SC ts)))
        + to_size_t (dim_n a * int (sizeof_SC ts)))
        + to_size_t (dim_m a * int (sizeof_SC ts)))"

definition SPMV_num_objects :: "type_sizes \<Rightarrow> matrix \<Rightarrow> int list" where
  "SPMV_num_objects ts a =
     [dim_nnz a, to_int (dim_m a + 1), dim_nnz a, dim_n a, dim_m a,
      to_int (all_bytes_size_t ts a)]"

definition SPMV_object_size :: "type_sizes \<Rightarrow> int list" where
  "SPMV_object_size ts =
     [to_int (int (sizeof_LO ts)), to_int (int sizeof_rowptr_type), to_int (int (sizeof_SC ts)),
      to_int (int (sizeof_SC ts)), to_int (int (sizeof_SC ts)), 1]"

definition SPMV_corrected :: "int list" where
  "SPMV_corrected = [1, 1, 1, 1, 1, 0]"

definition NUM_TIMERS :: nat where
  "NUM_TIMERS = 6"

text \<open>Lines 217 to 241, the body of the loop for timer \<open>i\<close> on the process \<open>r\<close>.\<close>

definition size_in_bytes :: "type_sizes \<Rightarrow> matrix \<Rightarrow> nat \<Rightarrow> int" where
  "size_in_bytes ts a i = to_int (SPMV_object_size ts ! i * SPMV_num_objects ts a ! i)"

definition avg_time :: "type_sizes \<Rightarrow> rank_data \<Rightarrow> nat \<Rightarrow> real" where
  "avg_time ts r i =
     (if SPMV_corrected ! i = 1
      then latency_corrected_stream_vector_lookup (PM r) (size_in_bytes ts (A r) i)
      else stream_vector_lookup (PM r) (size_in_bytes ts (A r) i))"

text \<open>
  Modelled from the spec: \<^verbatim>\<open>Teuchos::reduceAll\<close> with \<^verbatim>\<open>REDUCE_SUM\<close>, which is not
  among the sources; the specification has that "per-process latency and lookup values
  are reduced (sum-then-average) across the communicator". Every process contributes its
  local value and receives the sum. The communicator is the list of its processes.
\<close>

definition reduceAll_SUM :: "('r \<Rightarrow> real) \<Rightarrow> 'r list \<Rightarrow> real" where
  "reduceAll_SUM f W = sum_list (map f W)"

definition avg_distributed :: "type_sizes \<Rightarrow> rank_data list \<Rightarrow> nat \<Rightarrow> nat \<Rightarrow> real" where
  "avg_distributed ts W me i =
     (if length W > 1
      then reduceAll_SUM (\<lambda>r. avg_time ts r i) W / real (length W)
      else avg_time ts (W ! me) i)"

definition memory_traffic :: "type_sizes \<Rightarrow> matrix \<Rightarrow> nat \<Rightarrow> real" where
  "memory_traffic ts a i =
     real_of_int (SPMV_object_size ts ! i) * real_of_int (SPMV_num_objects ts a ! i)"

definition gb_per_sec :: "type_sizes \<Rightarrow> rank_data list \<Rightarrow> nat \<Rightarrow> nat \<Rightarrow> real" where
  "gb_per_sec ts W me i =
     convert_time_to_bandwidth_gbs (avg_distributed ts W me i) 1 (memory_traffic ts (A (W ! me)) i)"

text \<open>Lines 244 to 253.\<close>

definition avg_latency :: "rank_data list \<Rightarrow> nat \<Rightarrow> real" where
  "avg_latency W me =
     (if length W > 1
      then reduceAll_SUM (\<lambda>r. launch_latency_lookup (PM r)) W / real (length W)
      else launch_latency_lookup (PM (W ! me)))"

text \<open>
  Lines 265 to 274: the byte counts, index 0 to 5 for \<^verbatim>\<open>rowptr\<close>, \<^verbatim>\<open>colind\<close>,
  \<^verbatim>\<open>values\<close>, \<^verbatim>\<open>x\<close>, \<^verbatim>\<open>y\<close> and their sum.
\<close>

definition spmv_memory_bytes :: "type_sizes \<Rightarrow> matrix \<Rightarrow> int list" where
  "spmv_memory_bytes ts a =
     (let b = [to_size_t (to_int (dim_m a + 1) * int sizeof_rowptr_type),
               to_size_t (dim_nnz a * int (sizeof_LO ts)),
               to_size_t (dim_nnz a * int (sizeof_SC ts)),
               to_size_t (dim_n a * int (sizeof_SC ts)),
               to_size_t (dim_m a * int (sizeof_SC ts))]
      in b @ [foldl (\<lambda>s x. to_size_t (s + x)) 0 b])"

text \<open>Lines 277 to 281.\<close>

definition composite_term :: "type_sizes \<Rightarrow> rank_data list \<Rightarrow> nat \<Rightarrow> nat \<Rightarrow> real" where
  "composite_term ts W me i =
     real_of_int (spmv_memory_bytes ts (A (W ! me)) ! i) / (GB * gb_per_sec ts W me i)"

definition minimum_local_composite_time :: "type_sizes \<Rightarrow> rank_data list \<Rightarrow> nat \<Rightarrow> real" where
  "minimum_local_composite_time ts W me =
     foldl (\<lambda>t i. t + composite_term ts W me i) (avg_latency W me) [0 ..< NUM_TIMERS - 1]"

definition minimum_local_all_time :: "type_sizes \<Rightarrow> rank_data list \<Rightarrow> nat \<Rightarrow> real" where
  "minimum_local_all_time ts W me =
     real_of_int (spmv_memory_bytes ts (A (W ! me)) ! (NUM_TIMERS - 1))
       / (GB * gb_per_sec ts W me (NUM_TIMERS - 1))"

text \<open>
  Lines 294 to 318: the four pack and unpack times. The products are \<^verbatim>\<open>size_t\<close>
  products; the lookup's parameter receives them.
\<close>

definition lcs_lookup :: "PerfModels \<Rightarrow> nat \<Rightarrow> nat \<Rightarrow> real" where
  "lcs_lookup pm num sz = latency_corrected_stream_vector_lookup pm (to_size_t (int num * int sz))"

definition same_time :: "type_sizes \<Rightarrow> PerfModels \<Rightarrow> real \<Rightarrow> importer \<Rightarrow> real" where
  "same_time ts pm lat imp =
     (let num_sames = NumSameIDs imp
      in if num_sames = 0 then 0
         else 2 * lcs_lookup pm num_sames (sizeof_SC ts) + lat)"

definition permute_time :: "type_sizes \<Rightarrow> PerfModels \<Rightarrow> real \<Rightarrow> importer \<Rightarrow> real" where
  "permute_time ts pm lat imp =
     (let num_permutes = NumPermuteIDs imp
      in if num_permutes = 0 then 0
         else 2 * lcs_lookup pm num_permutes (sizeof_LO ts)
              + 2 * lcs_lookup pm num_permutes (sizeof_SC ts) + lat)"

definition export_time :: "type_sizes \<Rightarrow> PerfModels \<Rightarrow> real \<Rightarrow> importer \<Rightarrow> real" where
  "export_time ts pm lat imp =
     (let num_exports = NumExportIDs imp
      in if num_exports = 0 then 0
         else lcs_lookup pm num_exports (sizeof_LO ts)
              + 2 * lcs_lookup pm num_exports (sizeof_SC ts) + lat)"

definition remote_time :: "type_sizes \<Rightarrow> PerfModels \<Rightarrow> real \<Rightarrow> importer \<Rightarrow> real" where
  "remote_time ts pm lat imp =
     (let num_remotes = NumRemoteIDs imp
      in if num_remotes = 0 then 0
         else lcs_lookup pm num_remotes (sizeof_LO ts)
              + 2 * lcs_lookup pm num_remotes (sizeof_SC ts) + lat)"

text \<open>
  Lines 339 to 347: the two loops over the message lengths. The state of each is the
  time summed so far and the \<^verbatim>\<open>total\<close> variable, which the body assigns. The second
  loop runs over the receive lengths and reads \<^verbatim>\<open>send_lengths[i]\<close>: an index past the
  end of that view is the error \<open>RangeError\<close>.
\<close>

definition send_body :: "type_sizes \<Rightarrow> PerfModels \<Rightarrow> real \<times> int \<Rightarrow> nat \<Rightarrow> real \<times> int" where
  "send_body ts pm st len =
     (fst st + pingpong_device_lookup pm (to_size_t (int len * int (sizeof_SC ts))),
      to_size_t (int len * int (sizeof_SC ts)))"

definition send_loop :: "type_sizes \<Rightarrow> PerfModels \<Rightarrow> nat list \<Rightarrow> real \<times> int" where
  "send_loop ts pm send_lengths = foldl (send_body ts pm) (0, 0) send_lengths"

fun recv_loop ::
  "type_sizes \<Rightarrow> PerfModels \<Rightarrow> nat list \<Rightarrow> nat \<Rightarrow> nat list \<Rightarrow> real \<times> int \<Rightarrow> error + real \<times> int"
where
  "recv_loop ts pm send_lengths i [] st = Inr st"
| "recv_loop ts pm send_lengths i (len # rest) st =
     (if i < length send_lengths
      then recv_loop ts pm send_lengths (Suc i) rest
             (fst st + pingpong_device_lookup pm (to_size_t (int len * int (sizeof_SC ts))),
              to_size_t (int (send_lengths ! i) * int (sizeof_SC ts)))
      else Inl RangeError)"

text \<open>Line 349: the argument of the halo-pong lookup.\<close>

definition avg_size_per_msg ::
  "type_sizes \<Rightarrow> PerfModels \<Rightarrow> nat list \<Rightarrow> nat list \<Rightarrow> error + real"
where
  "avg_size_per_msg ts pm send_lengths recv_lengths =
     (case recv_loop ts pm send_lengths 0 recv_lengths (0, 0) of
        Inl e \<Rightarrow> Inl e
      | Inr rcv \<Rightarrow>
          Inr (real_of_int (snd (send_loop ts pm send_lengths)) / (2 * real (length send_lengths))
               + real_of_int (snd rcv) / (2 * real (length recv_lengths))))"

text \<open>
  Lines 285 to 371: the remote part, as the four values it leaves in
  \<^verbatim>\<open>time_pack_unpack_outofplace\<close>, \<^verbatim>\<open>time_pack_unpack_inplace\<close>,
  \<^verbatim>\<open>time_communicate_ping\<close> and \<^verbatim>\<open>time_communicate_halo\<close>.
\<close>

record remote_times =
  time_pack_unpack_outofplace :: real
  time_pack_unpack_inplace :: real
  time_communicate_ping :: real
  time_communicate_halo :: real

definition communicate ::
  "type_sizes \<Rightarrow> PerfModels \<Rightarrow> importer \<Rightarrow> error + real \<times> real"
where
  "communicate ts pm imp =
     (case Distributor imp of
        None \<Rightarrow> Inr (max 0 0, 0)
      | Some (send_lengths, recv_lengths) \<Rightarrow>
          (case recv_loop ts pm send_lengths 0 recv_lengths (0, 0) of
             Inl e \<Rightarrow> Inl e
           | Inr rcv \<Rightarrow>
               (case avg_size_per_msg ts pm send_lengths recv_lengths of
                  Inl e \<Rightarrow> Inl e
                | Inr avg \<Rightarrow>
                    Inr (max (fst (send_loop ts pm send_lengths)) (fst rcv),
                         halopong_device_lookup pm avg))))"

definition remote_part :: "type_sizes \<Rightarrow> rank_data list \<Rightarrow> nat \<Rightarrow> error + remote_times" where
  "remote_part ts W me =
     (let zero = \<lparr> time_pack_unpack_outofplace = 0, time_pack_unpack_inplace = 0,
                   time_communicate_ping = 0, time_communicate_halo = 0 \<rparr>;
          pm = PM (W ! me); lat = avg_latency W me
      in if hasCrsGraph (A (W ! me))
         then (case Importer (A (W ! me)) of
                 None \<Rightarrow> Inr zero
               | Some imp \<Rightarrow>
                   (case communicate ts pm imp of
                      Inl e \<Rightarrow> Inl e
                    | Inr c \<Rightarrow>
                        Inr \<lparr> time_pack_unpack_outofplace =
                                same_time ts pm lat imp + permute_time ts pm lat imp
                                + export_time ts pm lat imp + remote_time ts pm lat imp,
                              time_pack_unpack_inplace =
                                permute_time ts pm lat imp + export_time ts pm lat imp,
                              time_communicate_ping = fst c,
                              time_communicate_halo = snd c \<rparr>))
         else Inr zero)"

text \<open>
  The function on the process \<open>me\<close> of the communicator \<open>W\<close>: the error that ends it, or
  the six numbers it prints at line 380 with the flag that says whether the halo-pong
  table was made. The tables it prints when \<^verbatim>\<open>verbose\<close> is set and the ratios to the
  measured timers are output only and are left out.
\<close>

record report =
  composite :: real
  all_model :: real
  remote :: remote_times
  halopong_table_made :: bool

definition report_performance_models ::
  "type_sizes \<Rightarrow> rank_data list \<Rightarrow> nat \<Rightarrow> error + report"
where
  "report_performance_models ts W me =
     (case make_halopong_table (A (W ! me)) of
        Inl e \<Rightarrow> Inl e
      | Inr made \<Rightarrow>
          (case remote_part ts W me of
             Inl e \<Rightarrow> Inl e
           | Inr rt \<Rightarrow>
               Inr \<lparr> composite = minimum_local_composite_time ts W me,
                     all_model = minimum_local_all_time ts W me,
                     remote = rt,
                     halopong_table_made = made \<rparr>))"

section \<open>The experiment loop\<close>

subsection \<open>The order of the experiments\<close>

text \<open>
  Lines 1428 to 1441 of \<^verbatim>\<open>main_\<close>: on process 0 the vector is shuffled, then it is
  broadcast from process 0, then every process walks through its vector.

  Modelled from the spec: \<^verbatim>\<open>std::shuffle\<close>, which belongs to the C++ library. The
  specification has "a uniformly random permutation of the enabled-backend list"; the
  model is the loop of swaps that libstdc++ runs, position \<open>i\<close> with a position drawn from
  \<open>0\<close> to \<open>i\<close>, for \<open>i\<close> from 1 to the last position. The random source is the
  sequence of the numbers it is going to produce, so that a seed is a sequence; a source
  that has run out produces 0.
\<close>

type_synonym random_source = "nat list"

definition draw :: "nat \<Rightarrow> random_source \<Rightarrow> nat \<times> random_source" where
  "draw bound g = (case g of [] \<Rightarrow> (0, []) | r # g' \<Rightarrow> (r mod (bound + 1), g'))"

definition iter_swap :: "nat \<Rightarrow> nat \<Rightarrow> 'a list \<Rightarrow> 'a list" where
  "iter_swap i j xs = xs[i := xs ! j, j := xs ! i]"

fun shuffle_from :: "nat \<Rightarrow> nat \<Rightarrow> 'a list \<Rightarrow> random_source \<Rightarrow> 'a list \<times> random_source" where
  "shuffle_from 0 i xs g = (xs, g)"
| "shuffle_from (Suc k) i xs g =
     (case draw i g of (j, g') \<Rightarrow> shuffle_from k (Suc i) (iter_swap i j xs) g')"

definition shuffle :: "'a list \<Rightarrow> random_source \<Rightarrow> 'a list \<times> random_source" where
  "shuffle xs g = shuffle_from (length xs - 1) 1 xs g"

text \<open>
  Modelled from the spec: \<^verbatim>\<open>Teuchos::Comm::broadcast\<close>, which is not among the
  sources; the specification has that process 0 "broadcasts the permutation (as raw
  bytes) to all other ranks". The buffers of all processes go in, indexed by rank. At
  line 1436 each process asks for \<^verbatim>\<open>sizeof(Experiments::TPETRA) * my_experiments.size()\<close>
  bytes, as many as its own vector holds and a whole number of elements: it receives that
  many from the front of the root's vector, and what lies beyond stays as it was.
\<close>

definition broadcast :: "nat \<Rightarrow> 'a list list \<Rightarrow> 'a list list" where
  "broadcast root_rank bufs =
     map (\<lambda>b. take (length b) (bufs ! root_rank) @ drop (length (bufs ! root_rank)) b) bufs"

text \<open>
  The \<^verbatim>\<open>case\<close> labels of the \<^verbatim>\<open>switch\<close> at line 1442 that a build compiles; an
  identifier without a label reaches \<^verbatim>\<open>default\<close>, which runs no kernel.
\<close>

fun has_case :: "build_config \<Rightarrow> Experiments \<Rightarrow> bool" where
  "has_case cfg MKL = HAVE_MUELU_MKL cfg"
| "has_case cfg KK = HAVE_MUELU_TPETRA cfg"
| "has_case cfg TPETRA = HAVE_MUELU_TPETRA cfg"
| "has_case cfg CUSPARSE = HAVE_MUELU_CUSPARSE cfg"
| "has_case cfg MAGMASPARSE = HAVE_MUELU_MAGMASPARSE cfg"
| "has_case cfg HYPRE = HAVE_MUELU_HYPRE cfg"
| "has_case cfg PETSC = HAVE_MUELU_PETSC cfg"

text \<open>
  The state of the loop over all processes: the vector \<^verbatim>\<open>my_experiments\<close> of each
  process, the random source of process 0 (the other sources are never used), and, for
  each repetition so far and each process, the kernels the process ran, in order.
\<close>

record loop_state =
  experiments :: "Experiments list list"
  random_source :: random_source
  executed :: "Experiments list list list"

definition repetition :: "build_config \<Rightarrow> loop_state \<Rightarrow> loop_state" where
  "repetition cfg s =
     (case shuffle (experiments s ! 0) (random_source s) of
        (shuffled, g') \<Rightarrow>
          (let bufs = broadcast 0 ((experiments s)[0 := shuffled])
           in \<lparr> experiments = bufs, random_source = g',
                executed = executed s @ [map (filter (has_case cfg)) bufs] \<rparr>))"

definition experiment_loop ::
  "build_config \<Rightarrow> cmdline \<Rightarrow> nat \<Rightarrow> nat \<Rightarrow> random_source \<Rightarrow> loop_state"
where
  "experiment_loop cfg cl numProc nrepeat g =
     (let s = \<lparr> experiments = replicate numProc (my_experiments cfg cl numProc),
                 random_source = g, executed = [] \<rparr>
      in if my_experiments cfg cl numProc \<noteq> [] then (repetition cfg ^^ nrepeat) s else s)"

subsection \<open>One experiment on the shared vectors\<close>

text \<open>
  Modelled from the spec: the multivectors of Tpetra and Xpetra, which are not among the
  sources; the specification describes them as "a contiguous local value buffer",
  "supporting elementwise arithmetic and norms" and "cheap to reset to a known fill value
  (one, NaN-sentinel)". A vector is the list of its entries. A scalar is a real number or
  NaN; infinities and rounding are not modelled. An operation with a NaN operand gives
  NaN, and \<^verbatim>\<open>==\<close> is false when an operand is NaN. \<^verbatim>\<open>putScalar\<close> fills the vector,
  \<^verbatim>\<open>update(alpha, A, beta)\<close> makes it \<open>beta * this + alpha * A\<close>, \<^verbatim>\<open>norm2\<close> is the
  Euclidean norm.
\<close>

datatype Scalar = Num real | NaN

fun plus_Scalar :: "Scalar \<Rightarrow> Scalar \<Rightarrow> Scalar" where
  "plus_Scalar (Num a) (Num b) = Num (a + b)"
| "plus_Scalar _ _ = NaN"

fun times_Scalar :: "Scalar \<Rightarrow> Scalar \<Rightarrow> Scalar" where
  "times_Scalar (Num a) (Num b) = Num (a * b)"
| "times_Scalar _ _ = NaN"

fun sqrt_Scalar :: "Scalar \<Rightarrow> Scalar" where
  "sqrt_Scalar (Num a) = (if a < 0 then NaN else Num (sqrt a))"
| "sqrt_Scalar NaN = NaN"

fun equal_Scalar :: "Scalar \<Rightarrow> Scalar \<Rightarrow> bool" where
  "equal_Scalar (Num a) (Num b) = (a = b)"
| "equal_Scalar _ _ = False"

definition putScalar :: "Scalar \<Rightarrow> Scalar list \<Rightarrow> Scalar list" where
  "putScalar v xs = map (\<lambda>_. v) xs"

definition update :: "Scalar \<Rightarrow> Scalar list \<Rightarrow> Scalar \<Rightarrow> Scalar list \<Rightarrow> Scalar list" where
  "update alpha a beta this =
     map (\<lambda>(t, e). plus_Scalar (times_Scalar beta t) (times_Scalar alpha e)) (zip this a)"

definition norm2 :: "Scalar list \<Rightarrow> Scalar" where
  "norm2 xs = sqrt_Scalar (foldl plus_Scalar (Num 0) (map (\<lambda>v. times_Scalar v v) xs))"

text \<open>
  The vectors of one run. \<^verbatim>\<open>y\<close> and \<^verbatim>\<open>yt\<close> are two handles on one buffer, as are
  \<^verbatim>\<open>x\<close> and \<^verbatim>\<open>xt\<close>, \<^verbatim>\<open>y_baseline\<close> and \<^verbatim>\<open>yt_baseline\<close>: one field each,
  under the name of the Tpetra handle. \<open>cout\<close> holds the lines printed at line 1554.
\<close>

record norm_line =
  ExperimentID :: Experiments
  y_err :: Scalar
  y_norm2 :: Scalar
  y_baseline_norm2 :: Scalar
  ptr_eq_mv :: bool
  y_mv_norm2_next_itr :: Scalar

record vectors =
  xt :: "Scalar list"
  yt :: "Scalar list"
  yt_baseline :: "Scalar list"
  cout :: "norm_line list"

text \<open>
  A kernel is a parameter: what the backend leaves in the output buffer, given the input
  vector and the buffer as it finds it. A backend that does nothing returns the buffer.
\<close>

type_synonym kernels = "Experiments \<Rightarrow> Scalar list \<Rightarrow> Scalar list \<Rightarrow> Scalar list"

text \<open>Lines 1305 to 1309, for a matrix with \<open>m\<close> local rows and \<open>n\<close> local columns.\<close>

definition initial_vectors :: "nat \<Rightarrow> nat \<Rightarrow> vectors" where
  "initial_vectors m n =
     \<lparr> xt = putScalar (Num 1) (replicate n (Num 0)),
       yt = putScalar NaN (replicate m (Num 0)),
       yt_baseline = putScalar NaN (replicate m (Num 0)),
       cout = [] \<rparr>"

text \<open>Lines 1412 to 1419: the baseline, and the constant \<^verbatim>\<open>error_check_y\<close>.\<close>

definition compute_baseline :: "build_config \<Rightarrow> bool \<Rightarrow> kernels \<Rightarrow> vectors \<Rightarrow> vectors" where
  "compute_baseline cfg report_error_norms spmv v =
     (if HAVE_MUELU_TPETRA cfg \<and> report_error_norms
      then v\<lparr>yt_baseline := spmv TPETRA (xt v) (yt_baseline v)\<rparr>
      else v)"

definition error_check_y :: "build_config \<Rightarrow> bool" where
  "error_check_y cfg = HAVE_MUELU_TPETRA cfg"

text \<open>Lines 1442 to 1525: the \<^verbatim>\<open>switch\<close>.\<close>

definition invoke :: "build_config \<Rightarrow> kernels \<Rightarrow> Experiments \<Rightarrow> vectors \<Rightarrow> vectors" where
  "invoke cfg spmv experiment_id v =
     (if has_case cfg experiment_id then v\<lparr>yt := spmv experiment_id (xt v) (yt v)\<rparr> else v)"

text \<open>Lines 1528 to 1562: the check after the \<^verbatim>\<open>switch\<close>, statement by statement.\<close>

definition check_norms :: "build_config \<Rightarrow> bool \<Rightarrow> Experiments \<Rightarrow> vectors \<Rightarrow> vectors" where
  "check_norms cfg report_error_norms experiment_id v =
     (if error_check_y cfg \<and> report_error_norms
      then (let y_norm2' = norm2 (yt v);
                y_mv_norm2 = norm2 (yt v);
                v1 = v\<lparr>yt := update (Num (- 1)) (yt_baseline v) (Num 1) (yt v)\<rparr>;
                y_err' = norm2 (yt v1);
                v2 = v1\<lparr>yt := putScalar NaN (yt v1)\<rparr>;
                y_baseline_norm2' = norm2 (yt_baseline v2);
                y_mv_norm2_next_itr' = norm2 (yt v2)
            in v2\<lparr>cout := cout v2 @
                 [\<lparr> ExperimentID = experiment_id, y_err = y_err', y_norm2 = y_norm2',
                     y_baseline_norm2 = y_baseline_norm2',
                     ptr_eq_mv = equal_Scalar y_mv_norm2 y_norm2',
                     y_mv_norm2_next_itr = y_mv_norm2_next_itr' \<rparr>]\<rparr>)
      else v)"

definition one_experiment ::
  "build_config \<Rightarrow> bool \<Rightarrow> kernels \<Rightarrow> vectors \<Rightarrow> Experiments \<Rightarrow> vectors"
where
  "one_experiment cfg report_error_norms spmv v experiment_id =
     check_norms cfg report_error_norms experiment_id (invoke cfg spmv experiment_id v)"

text \<open>
  One process through the whole loop: the baseline, then the experiments of each
  repetition in the order the process received.
\<close>

definition run_experiments ::
  "build_config \<Rightarrow> bool \<Rightarrow> kernels \<Rightarrow> Experiments list list \<Rightarrow> vectors \<Rightarrow> vectors"
where
  "run_experiments cfg report_error_norms spmv orders v =
     foldl (one_experiment cfg report_error_norms spmv)
       (compute_baseline cfg report_error_norms spmv v) (concat orders)"

section \<open>The contiguous-map builder\<close>

text \<open>
  \<^verbatim>\<open>MakeContiguousMaps\<close> (lines 436 to 496 of the driver) is collective: every process
  calls it and takes the same branches. A map is therefore modelled with the identifier
  lists of all processes, indexed by rank. A \<^verbatim>\<open>Teuchos::RCP\<close> to a map is an address
  in a store of maps, so that "the same object" is equality of addresses;
  \<^verbatim>\<open>rcp(new map_type(...))\<close> puts the new map at a fresh address.
\<close>

record map_type =
  GlobalNumElements :: nat
  LocalElementList :: "int list list"
  isContiguous :: bool

type_synonym map_store = "map_type list"

definition LocalNumElements :: "map_type \<Rightarrow> nat list" where
  "LocalNumElements mp = map length (LocalElementList mp)"

definition rcp_new :: "map_type \<Rightarrow> map_store \<Rightarrow> map_store \<times> nat" where
  "rcp_new mp h = (h @ [mp], length h)"

text \<open>
  Modelled from the spec: the constructor \<^verbatim>\<open>Tpetra::Map(numGlobal, numLocal, indexBase,
  comm)\<close>, which is not among the sources. The specification calls its result "a
  brand-new contiguous domain map of the same size/distribution", a renumbering "using
  local-to-global rank-ordering" in which "each process's global identifiers form one
  unbroken numeric range": with index base 0, the process of rank 0 gets the identifiers
  from 0, and each process the ones that follow those of the rank below it.
\<close>

fun contiguous_runs :: "nat \<Rightarrow> nat list \<Rightarrow> nat list list" where
  "contiguous_runs first [] = []"
| "contiguous_runs first (n # ns) = [first ..< first + n] # contiguous_runs (first + n) ns"

definition contiguous_map :: "nat \<Rightarrow> nat list \<Rightarrow> map_type" where
  "contiguous_map numGlobal numLocal =
     \<lparr> GlobalNumElements = numGlobal,
       LocalElementList = map (map int) (contiguous_runs 0 numLocal),
       isContiguous = True \<rparr>"

text \<open>
  Modelled from the spec: the constructor \<^verbatim>\<open>Tpetra::Map(numGlobal, elementList,
  indexBase, comm)\<close>, which is not among the sources: the map whose identifiers on each
  process are the given list, in the given order. Tpetra does not mark such a map
  contiguous.
\<close>

definition map_of_lists :: "nat \<Rightarrow> int list list \<Rightarrow> map_type" where
  "map_of_lists numGlobal elementLists =
     \<lparr> GlobalNumElements = numGlobal, LocalElementList = elementLists, isContiguous = False \<rparr>"

text \<open>
  Modelled from the spec: \<^verbatim>\<open>doImport\<close> with \<^verbatim>\<open>Tpetra::INSERT\<close> from a vector over the
  domain map into a vector over the column map, which is not among the sources. In the
  words of the specification it "propagate[s] the new global identifiers through a halo
  exchange": the entry of the target at an identifier is the entry of the source at the
  place where the source map holds that identifier. A target entry whose identifier the
  source map does not hold keeps the zero the vector was created with.
\<close>

definition doImport :: "map_type \<Rightarrow> int list list \<Rightarrow> map_type \<Rightarrow> int list list" where
  "doImport source vals target =
     map (map (\<lambda>g. case map_of (zip (concat (LocalElementList source)) (concat vals)) g of
                      Some v \<Rightarrow> v
                    | None \<Rightarrow> 0))
       (LocalElementList target)"

text \<open>
  What the function reads of the matrix: the addresses of its three maps, and whether its
  graph has an importer.
\<close>

record CrsMatrix_maps =
  RowMap :: nat
  DomainMap :: nat
  ColumnMap :: nat
  has_importer :: bool

text \<open>The three maps the function returns through its reference parameters.\<close>

record contiguous_maps =
  ContiguousRowMap :: nat
  ContiguousColumnMap :: nat
  ContiguousDomainMap :: nat

text \<open>Lines 460 to 468.\<close>

definition make_row_map :: "map_store \<Rightarrow> CrsMatrix_maps \<Rightarrow> map_store \<times> nat" where
  "make_row_map h M =
     (if isContiguous (h ! RowMap M) then (h, RowMap M)
      else rcp_new (contiguous_map (GlobalNumElements (h ! RowMap M))
                      (LocalNumElements (h ! RowMap M))) h)"

text \<open>Lines 471 to 495.\<close>

definition make_domain_and_column_map ::
  "map_store \<Rightarrow> CrsMatrix_maps \<Rightarrow> map_store \<times> nat \<times> nat"
where
  "make_domain_and_column_map h M =
     (if isContiguous (h ! DomainMap M) then (h, DomainMap M, ColumnMap M)
      else
        (case rcp_new (contiguous_map (GlobalNumElements (h ! DomainMap M))
                         (LocalNumElements (h ! DomainMap M))) h of
           (h1, cdom) \<Rightarrow>
             (if has_importer M
              then (let MyGIDsHYPRE = LocalElementList (h1 ! cdom);
                        ColGIDsHYPRE = doImport (h1 ! DomainMap M) MyGIDsHYPRE (h1 ! ColumnMap M)
                    in case rcp_new (map_of_lists (GlobalNumElements (h1 ! ColumnMap M))
                                       ColGIDsHYPRE) h1 of
                         (h2, ccol) \<Rightarrow> (h2, cdom, ccol))
              else (case rcp_new (map_of_lists (GlobalNumElements (h1 ! ColumnMap M))
                                    (LocalElementList (h1 ! cdom))) h1 of
                      (h2, ccol) \<Rightarrow> (h2, cdom, ccol)))))"

definition MakeContiguousMaps :: "map_store \<Rightarrow> CrsMatrix_maps \<Rightarrow> map_store \<times> contiguous_maps" where
  "MakeContiguousMaps h M =
     (case make_row_map h M of
        (h1, crow) \<Rightarrow>
          (case make_domain_and_column_map h1 M of
             (h2, cdom, ccol) \<Rightarrow>
               (h2, \<lparr> ContiguousRowMap = crow, ContiguousColumnMap = ccol,
                      ContiguousDomainMap = cdom \<rparr>)))"

text \<open>
  A list of identifiers is one contiguous run when each entry is the first entry plus
  its position.
\<close>

definition contiguous_run :: "int list \<Rightarrow> bool" where
  "contiguous_run gs = (gs = map (\<lambda>j. hd gs + int j) [0 ..< length gs])"

section \<open>The quantities the claims name\<close>

text \<open>
  These definitions follow the words of the specification, not the code; the theorems
  compare them with the definitions above.

  The byte volume of the object of timer \<open>i\<close>, as an unbounded integer: the column
  indices, the row pointer, the values, the input vector, the output vector, and the sum
  of the five.
\<close>

definition byte_volume :: "type_sizes \<Rightarrow> matrix \<Rightarrow> nat \<Rightarrow> int" where
  "byte_volume ts a i =
     (let m = int (LocalNumRows a); n = int (ColMapLocalNumElements a);
          nnz = int (entries_extent a); sc = int (sizeof_SC ts); lo = int (sizeof_LO ts)
      in [nnz * lo, (m + 1) * int sizeof_rowptr_type, nnz * sc, n * sc, m * sc,
          (m + 1) * int sizeof_rowptr_type + nnz * lo + nnz * sc + n * sc + m * sc] ! i)"

text \<open>
  The time one table lookup at the byte volume of object \<open>i\<close> gives, averaged over the
  processes as section 4.1 of the specification says: the stream table for the sum of all
  bytes, the latency-corrected stream table for a single object.
\<close>

definition lookup_time :: "type_sizes \<Rightarrow> rank_data list \<Rightarrow> nat \<Rightarrow> real" where
  "lookup_time ts W i =
     (\<Sum>r\<leftarrow>W. (if i = 5 then stream_vector_lookup (PM r) (byte_volume ts (A r) i)
                else latency_corrected_stream_vector_lookup (PM r) (byte_volume ts (A r) i)))
       / real (length W)"

text \<open>
  The byte volume of object \<open>i\<close> divided by the bandwidth that the lookup at that
  volume gives.
\<close>

definition object_time :: "type_sizes \<Rightarrow> rank_data list \<Rightarrow> nat \<Rightarrow> nat \<Rightarrow> real" where
  "object_time ts W me i =
     real_of_int (byte_volume ts (A (W ! me)) i)
       / (GB * convert_time_to_bandwidth_gbs (lookup_time ts W i) 1
                 (real_of_int (byte_volume ts (A (W ! me)) i)))"

text \<open>
  The composite model as the specification words it: the five objects, each with its own
  lookup and with one latency term per object.
\<close>

definition composite_as_specified :: "type_sizes \<Rightarrow> rank_data list \<Rightarrow> nat \<Rightarrow> real" where
  "composite_as_specified ts W me =
     (\<Sum>i\<leftarrow>[1, 0, 2, 3, 4]. object_time ts W me i + avg_latency W me)"

text \<open>
  What the specification asks of a renumbered map: the global element count of the old
  map, as many identifiers on each process as before, on each process distinct
  identifiers that form one contiguous run, and the runs of the processes following each
  other from 0.
\<close>

definition renumbered :: "map_type \<Rightarrow> map_type \<Rightarrow> bool" where
  "renumbered old new \<longleftrightarrow>
     GlobalNumElements new = GlobalNumElements old
     \<and> map length (LocalElementList new) = map length (LocalElementList old)
     \<and> (\<forall>gs\<in>set (LocalElementList new). distinct gs \<and> contiguous_run gs)
     \<and> concat (LocalElementList new) = map int [0 ..< length (concat (LocalElementList old))]"

text \<open>
  The order shuffled on process 0 in repetition \<open>i\<close>: the vector is shuffled in place
  once per repetition, each shuffle starting from the result and the random source the
  one before left, so the order of repetition \<open>i\<close> is the enabled list after \<open>i + 1\<close>
  shuffles.
\<close>

definition shuffles :: "nat \<Rightarrow> 'a list \<times> random_source \<Rightarrow> 'a list \<times> random_source" where
  "shuffles k = ((\<lambda>(xs, h). shuffle xs h) ^^ k)"

definition rank0_order :: "Experiments list \<Rightarrow> random_source \<Rightarrow> nat \<Rightarrow> Experiments list" where
  "rank0_order E g i = fst (shuffles (Suc i) (E, g))"

section \<open>Concrete inputs\<close>

text \<open>
  \<^verbatim>\<open>double\<close> scalars and \<^verbatim>\<open>int\<close> local ordinals; tables that answer every size
  with one second, the stream table with two seconds at a size that is not negative; a
  matrix with one row, one column and one entry, the same matrix with a graph that has
  no importer, and a matrix with 67108864 rows and columns and four entries in each row.
\<close>

definition ts0 :: type_sizes where
  "ts0 = \<lparr> sizeof_SC = 8, sizeof_LO = 4 \<rparr>"

definition unit_tables :: PerfModels where
  "unit_tables =
     \<lparr> stream_vector_lookup = (\<lambda>s. if s < 0 then 1 else 2),
       latency_corrected_stream_vector_lookup = (\<lambda>s. 1),
       launch_latency_lookup = 1,
       pingpong_device_lookup = (\<lambda>s. 1),
       halopong_device_lookup = (\<lambda>s. 1) \<rparr>"

definition small_matrix :: matrix where
  "small_matrix =
     \<lparr> LocalNumRows = 1, ColMapLocalNumElements = 1, entries_extent = 1,
       hasCrsGraph = False, Importer = None \<rparr>"

definition large_matrix :: matrix where
  "large_matrix =
     \<lparr> LocalNumRows = 67108864, ColMapLocalNumElements = 67108864,
       entries_extent = 268435456, hasCrsGraph = False, Importer = None \<rparr>"

definition serial_matrix :: matrix where
  "serial_matrix =
     \<lparr> LocalNumRows = 1, ColMapLocalNumElements = 1, entries_extent = 1,
       hasCrsGraph = True, Importer = None \<rparr>"

definition one_process :: "matrix \<Rightarrow> rank_data list" where
  "one_process a = [\<lparr>A = a, PM = unit_tables\<rparr>]"

text \<open>A build with HYPRE as well, for a list of two experiments on two processes.\<close>

definition hypre_build :: build_config where
  "hypre_build = plain_build\<lparr>HAVE_MUELU_HYPRE := True\<rparr>"

text \<open>
  Kernels for the identity matrix: every backend copies the input vector; and the same
  with a KokkosKernels backend that returns twice the input.
\<close>

definition identity_kernels :: kernels where
  "identity_kernels = (\<lambda>e xs ys. xs)"

definition doubling_KK :: kernels where
  "doubling_KK = (\<lambda>e xs ys. if e = KK then map (times_Scalar (Num 2)) xs else xs)"

text \<open>
  Two processes. The row and domain map, at address 0, gives the identifiers 10 and 30
  to process 0 and 20 and 40 to process 1; the column map, at address 1, adds one halo
  column on each process. The second store holds one contiguous map.
\<close>

definition halo_store :: map_store where
  "halo_store =
     [\<lparr> GlobalNumElements = 4, LocalElementList = [[10, 30], [20, 40]], isContiguous = False \<rparr>,
      \<lparr> GlobalNumElements = 6, LocalElementList = [[10, 30, 40], [20, 40, 10]],
        isContiguous = False \<rparr>]"

definition halo_matrix :: CrsMatrix_maps where
  "halo_matrix = \<lparr> RowMap = 0, DomainMap = 0, ColumnMap = 1, has_importer = True \<rparr>"

definition linear_store :: map_store where
  "linear_store = [contiguous_map 4 [2, 2]]"

definition linear_matrix :: CrsMatrix_maps where
  "linear_matrix = \<lparr> RowMap = 0, DomainMap = 0, ColumnMap = 0, has_importer = False \<rparr>"

section \<open>Backend selection: results\<close>

lemmas setup_defs =
  setup_flags_def my_experiments_def disable_unavailable_def check_kk_def check_mkl_def
  check_cusparse_def check_magmasparse_def check_hypre_def check_petsc_def parse_def
  default_flags_def setOption_def add_experiments_def push_back_if_def

text \<open>
  C6, at the input where the source departs from it. PETSc is requested with
  \<^verbatim>\<open>--petsc\<close> in a build that has neither PETSc nor HYPRE, on one process. The block
  for PETSc tests \<^verbatim>\<open>do_hypre\<close>, which is false here, so no line is written to
  \<^verbatim>\<open>out\<close> and \<^verbatim>\<open>do_petsc\<close> stays true; PETSc is still absent from the experiment
  list, because its \<^verbatim>\<open>push_back\<close> is compiled out.
\<close>

theorem petsc_requested_not_warned:
  "setup_flags plain_build (no_options\<lparr>opt_petsc := Some True\<rparr>) 1
     = (\<lparr> do_mkl = False, do_tpetra = True, do_kk = True, do_cusparse = False,
           do_magmasparse = False, do_hypre = False, do_petsc = True \<rparr>, [])
   \<and> my_experiments plain_build (no_options\<lparr>opt_petsc := Some True\<rparr>) 1 = [TPETRA, KK]"
  by (simp add: setup_defs plain_build_def no_options_def)

text \<open>
  The list itself behaves as specified. An experiment whose library is not compiled in
  is never in the list, whatever the options; on more than one process the KokkosKernels
  experiment is switched off and absent from the list, and if it was not switched off by
  an option, the warning is written.
\<close>

lemma uncompiled_backends_absent:
  "\<not> HAVE_MUELU_MKL cfg \<Longrightarrow> MKL \<notin> set (my_experiments cfg cl numProc)"
  "\<not> HAVE_MUELU_CUSPARSE cfg \<Longrightarrow> CUSPARSE \<notin> set (my_experiments cfg cl numProc)"
  "\<not> HAVE_MUELU_MAGMASPARSE cfg \<Longrightarrow> MAGMASPARSE \<notin> set (my_experiments cfg cl numProc)"
  "\<not> HAVE_MUELU_HYPRE cfg \<Longrightarrow> HYPRE \<notin> set (my_experiments cfg cl numProc)"
  "\<not> HAVE_MUELU_PETSC cfg \<Longrightarrow> PETSC \<notin> set (my_experiments cfg cl numProc)"
  by (simp_all add: my_experiments_def add_experiments_def push_back_if_def)

lemma check_keeps_do_kk:
  "do_kk (fst (check_mkl cfg s)) = do_kk (fst s)"
  "do_kk (fst (check_cusparse cfg s)) = do_kk (fst s)"
  "do_kk (fst (check_magmasparse cfg s)) = do_kk (fst s)"
  "do_kk (fst (check_hypre cfg s)) = do_kk (fst s)"
  "do_kk (fst (check_petsc cfg s)) = do_kk (fst s)"
  by (cases s; simp add: check_mkl_def check_cusparse_def check_magmasparse_def check_hypre_def
      check_petsc_def)+

lemma KK_on_several_processes:
  assumes "1 < numProc"
  shows "\<not> do_kk (fst (setup_flags cfg cl numProc))"
    and "KK \<notin> set (my_experiments cfg cl numProc)"
proof -
  have "\<not> do_kk (fst (check_kk numProc (parse cl (default_flags cfg), [])))"
    using assms by (simp add: check_kk_def)
  then show "\<not> do_kk (fst (setup_flags cfg cl numProc))"
    by (simp add: setup_flags_def disable_unavailable_def check_keeps_do_kk)
  then show "KK \<notin> set (my_experiments cfg cl numProc)"
    by (simp add: my_experiments_def add_experiments_def push_back_if_def)
qed

lemma check_keeps_out:
  "set (snd s) \<subseteq> set (snd (check_mkl cfg s))"
  "set (snd s) \<subseteq> set (snd (check_cusparse cfg s))"
  "set (snd s) \<subseteq> set (snd (check_magmasparse cfg s))"
  "set (snd s) \<subseteq> set (snd (check_hypre cfg s))"
  "set (snd s) \<subseteq> set (snd (check_petsc cfg s))"
  by (cases s; simp add: check_mkl_def check_cusparse_def check_magmasparse_def check_hypre_def
      check_petsc_def subset_insertI)+

lemma KK_warning:
  assumes "1 < numProc" "opt_kk cl \<noteq> Some False"
  shows "''KK was requested, but this kernel this cannot be run on more than one rank. Disabling...''
           \<in> set (snd (setup_flags cfg cl numProc))"
proof -
  define w where
    "w = ''KK was requested, but this kernel this cannot be run on more than one rank. Disabling...''"
  define s where "s = check_kk numProc (parse cl (default_flags cfg), [])"
  have "do_kk (parse cl (default_flags cfg))"
    using assms(2) by (cases "opt_kk cl") (simp_all add: parse_def default_flags_def setOption_def)
  then have "snd s = [w]"
    using assms(1) unfolding s_def w_def check_kk_def by (simp only: split if_True simp_thms snd_conv append_Nil)
  then have "w \<in> set (snd s)" by simp
  also have "set (snd s) \<subseteq> set (snd (check_mkl cfg s))" by (rule check_keeps_out)
  also have "\<dots> \<subseteq> set (snd (check_cusparse cfg (check_mkl cfg s)))" by (rule check_keeps_out)
  also have "\<dots> \<subseteq> set (snd (check_magmasparse cfg (check_cusparse cfg (check_mkl cfg s))))"
    by (rule check_keeps_out)
  also have "\<dots> \<subseteq> set (snd (check_hypre cfg (check_magmasparse cfg (check_cusparse cfg (check_mkl cfg s)))))"
    by (rule check_keeps_out)
  also have "\<dots> \<subseteq> set (snd (check_petsc cfg (check_hypre cfg (check_magmasparse cfg (check_cusparse cfg (check_mkl cfg s))))))"
    by (rule check_keeps_out)
  finally show ?thesis
    unfolding setup_flags_def disable_unavailable_def s_def w_def .
qed


section \<open>The analytic cost reporter: results\<close>

subsection \<open>Integer conversions\<close>

lemma to_int_id: "- (2 ^ 31) \<le> v \<Longrightarrow> v < 2 ^ 31 \<Longrightarrow> to_int v = v"
  by (simp add: to_int_def)

lemma to_int_range: "- (2 ^ 31) \<le> to_int v \<and> to_int v < 2 ^ 31"
  unfolding to_int_def
proof -
  have "0 \<le> (v + 2 ^ 31) mod 2 ^ 32" "(v + 2 ^ 31) mod 2 ^ 32 < (2 ^ 32 :: int)"
    by simp_all
  then show "- (2 ^ 31) \<le> (v + 2 ^ 31) mod 2 ^ 32 - 2 ^ 31 \<and> (v + 2 ^ 31) mod 2 ^ 32 - 2 ^ 31 < 2 ^ 31"
    by simp
qed

lemma to_int_mod: "to_int v mod 2 ^ 32 = v mod 2 ^ 32"
proof -
  have "to_int v mod 2 ^ 32 = ((v + 2 ^ 31) mod 2 ^ 32 - 2 ^ 31 mod 2 ^ 32) mod 2 ^ 32"
    unfolding to_int_def by (simp add: mod_diff_right_eq)
  also have "\<dots> = (v + 2 ^ 31 - 2 ^ 31) mod 2 ^ 32"
    by (simp only: mod_diff_eq)
  finally show ?thesis by simp
qed

lemma to_size_t_id: "0 \<le> v \<Longrightarrow> v < 2 ^ 64 \<Longrightarrow> to_size_t v = v"
  by (simp add: to_size_t_def)

lemma nth6:
  "[a0, a1, a2, a3, a4, a5] ! 0 = a0" "[a0, a1, a2, a3, a4, a5] ! Suc 0 = a1"
  "[a0, a1, a2, a3, a4, a5] ! 2 = a2" "[a0, a1, a2, a3, a4, a5] ! 3 = a3"
  "[a0, a1, a2, a3, a4, a5] ! 4 = a4" "[a0, a1, a2, a3, a4, a5] ! 5 = a5"
  by (simp_all add: numeral_nat)

lemma lt6: "i < 6 \<Longrightarrow> i = 0 \<or> i = Suc 0 \<or> i = 2 \<or> i = 3 \<or> i = 4 \<or> i = (5::nat)"
  by arith



lemma to_int_of_nat: "n < 2 ^ 31 \<Longrightarrow> to_int (int n) = int n"
  by (rule to_int_id) simp_all

lemma nat_bound_of_mult:
  fixes k s :: nat
  assumes "int k * int s < 2 ^ 31" "0 < s"
  shows "k < 2 ^ 31"
proof -
  have "int k * 1 \<le> int k * int s" using assms(2) by (intro mult_left_mono) simp_all
  with assms(1) have "int k < 2 ^ 31" by simp
  then show ?thesis by simp
qed


lemma to_int_scaled:
  fixes k s :: nat
  assumes "0 < s" "int k * int s < 2 ^ 31"
  shows "to_int (int k) * int s = int k * int s"
  using nat_bound_of_mult [of k s] assms by (simp add: to_int_of_nat)

lemma to_int_size_scaled:
  fixes k s :: nat
  assumes "0 < s" "int k * int s < 2 ^ 31"
  shows "to_int (int s) * to_int (int k) = int k * int s"
proof (cases "k = 0")
  case True
  then show ?thesis by (simp add: to_int_def)
next
  case False
  then have "0 < k" by simp
  have "int s * int k < 2 ^ 31" using assms(2) by (simp add: mult.commute)
  from nat_bound_of_mult [OF this \<open>0 < k\<close>] have "s < 2 ^ 31" .
  moreover have "k < 2 ^ 31" using nat_bound_of_mult [OF assms(2) assms(1)] .
  ultimately show ?thesis by (simp add: to_int_of_nat)
qed

lemma rowptr_count:
  fixes m :: nat
  assumes "(int m + 1) * 8 < 2 ^ 31"
  shows "to_int (to_int (int m) + 1) = int m + 1"
proof -
  have "int m + 1 < 2 ^ 31" using assms by simp
  then have "m < 2 ^ 31" by simp
  then have "to_int (int m) = int m" by (rule to_int_of_nat)
  moreover have "to_int (int m + 1) = int m + 1"
    using \<open>int m + 1 < 2 ^ 31\<close> by (intro to_int_id) simp_all
  ultimately show ?thesis by simp
qed

lemma volume_parts:
  fixes m n nnz sc lo :: nat
  assumes "(int m + 1) * 8 + int nnz * int lo + int nnz * int sc + int n * int sc + int m * int sc < 2 ^ 31"
  shows "(int m + 1) * 8 < 2 ^ 31" "int nnz * int lo < 2 ^ 31" "int nnz * int sc < 2 ^ 31"
    "int n * int sc < 2 ^ 31" "int m * int sc < 2 ^ 31"
proof -
  have nn: "0 \<le> (int m + 1) * 8" "0 \<le> int nnz * int lo" "0 \<le> int nnz * int sc"
    "0 \<le> int n * int sc" "0 \<le> int m * int sc"
    by simp_all
  show "(int m + 1) * 8 < 2 ^ 31" using assms nn by linarith
  show "int nnz * int lo < 2 ^ 31" using assms nn by linarith
  show "int nnz * int sc < 2 ^ 31" using assms nn by linarith
  show "int n * int sc < 2 ^ 31" using assms nn by linarith
  show "int m * int sc < 2 ^ 31" using assms nn by linarith
qed

subsection \<open>Where the byte counts of the code are the byte volumes\<close>

lemma all_bytes_eq_volume:
  assumes "0 < sizeof_SC ts" "0 < sizeof_LO ts" "byte_volume ts a 5 < 2 ^ 31"
  shows "all_bytes_size_t ts a = byte_volume ts a 5"
proof -
  define m n nnz sc lo where "m = LocalNumRows a" and "n = ColMapLocalNumElements a"
    and "nnz = entries_extent a" and "sc = sizeof_SC ts" and "lo = sizeof_LO ts"
  have vol: "byte_volume ts a 5
      = (int m + 1) * 8 + int nnz * int lo + int nnz * int sc + int n * int sc + int m * int sc"
    by (simp add: byte_volume_def Let_def nth6 sizeof_rowptr_type_def m_def n_def nnz_def sc_def lo_def)
  have lt: "(int m + 1) * 8 + int nnz * int lo + int nnz * int sc + int n * int sc + int m * int sc < 2 ^ 31"
    using assms(3) vol by simp
  note parts = volume_parts [OF lt]
  have pos: "0 < sc" "0 < lo" using assms by (simp_all add: sc_def lo_def)
  have t1: "to_int (to_int (int m) + 1) * 8 = (int m + 1) * 8"
    using rowptr_count [OF parts(1)] by simp
  have t2: "to_int (int nnz) * int lo = int nnz * int lo"
    by (rule to_int_scaled [OF pos(2) parts(2)])
  have t3: "to_int (int nnz) * int sc = int nnz * int sc"
    by (rule to_int_scaled [OF pos(1) parts(3)])
  have t4: "to_int (int n) * int sc = int n * int sc"
    by (rule to_int_scaled [OF pos(1) parts(4)])
  have t5: "to_int (int m) * int sc = int m * int sc"
    by (rule to_int_scaled [OF pos(1) parts(5)])
  have nn: "0 \<le> (int m + 1) * 8" "0 \<le> int nnz * int lo" "0 \<le> int nnz * int sc"
    "0 \<le> int n * int sc" "0 \<le> int m * int sc"
    by simp_all
  have small: "\<And>v::int. 0 \<le> v \<Longrightarrow> v < 2 ^ 31 \<Longrightarrow> to_size_t v = v"
    by (rule to_size_t_id) simp_all
  have s1: "to_size_t ((int m + 1) * 8) = (int m + 1) * 8"
    by (rule small) (use parts(1) nn in linarith)+
  have s2: "to_size_t (int nnz * int lo) = int nnz * int lo"
    by (rule small) (use parts(2) nn in linarith)+
  have s3: "to_size_t (int nnz * int sc) = int nnz * int sc"
    by (rule small) (use parts(3) nn in linarith)+
  have s4: "to_size_t (int n * int sc) = int n * int sc"
    by (rule small) (use parts(4) nn in linarith)+
  have s5: "to_size_t (int m * int sc) = int m * int sc"
    by (rule small) (use parts(5) nn in linarith)+
  have a2: "to_size_t ((int m + 1) * 8 + int nnz * int lo) = (int m + 1) * 8 + int nnz * int lo"
    by (rule small) (use lt nn in linarith)+
  have a3: "to_size_t ((int m + 1) * 8 + int nnz * int lo + int nnz * int sc)
      = (int m + 1) * 8 + int nnz * int lo + int nnz * int sc"
    by (rule small) (use lt nn in linarith)+
  have a4: "to_size_t ((int m + 1) * 8 + int nnz * int lo + int nnz * int sc + int n * int sc)
      = (int m + 1) * 8 + int nnz * int lo + int nnz * int sc + int n * int sc"
    by (rule small) (use lt nn in linarith)+
  have a5: "to_size_t ((int m + 1) * 8 + int nnz * int lo + int nnz * int sc + int n * int sc + int m * int sc)
      = (int m + 1) * 8 + int nnz * int lo + int nnz * int sc + int n * int sc + int m * int sc"
    by (rule small) (use lt nn in linarith)+
  have "all_bytes_size_t ts a
      = (int m + 1) * 8 + int nnz * int lo + int nnz * int sc + int n * int sc + int m * int sc"
    unfolding all_bytes_size_t_def dim_m_def dim_n_def dim_nnz_def sizeof_rowptr_type_def
      m_def [symmetric] n_def [symmetric] nnz_def [symmetric] sc_def [symmetric] lo_def [symmetric]
    by (simp only: of_nat_numeral t1 t2 t3 t4 t5 s1 s2 s3 s4 s5 a2 a3 a4 a5)
  with vol show ?thesis by simp
qed


lemma product_eq_volume:
  assumes "i < 6" "0 < sizeof_SC ts" "0 < sizeof_LO ts" "byte_volume ts a i < 2 ^ 31"
  shows "SPMV_object_size ts ! i * SPMV_num_objects ts a ! i = byte_volume ts a i"
proof -
  define m n nnz sc lo where "m = LocalNumRows a" and "n = ColMapLocalNumElements a"
    and "nnz = entries_extent a" and "sc = sizeof_SC ts" and "lo = sizeof_LO ts"
  have pos: "0 < sc" "0 < lo" using assms by (simp_all add: sc_def lo_def)
  note defs = byte_volume_def Let_def nth6 sizeof_rowptr_type_def SPMV_object_size_def
    SPMV_num_objects_def dim_m_def dim_n_def dim_nnz_def
    m_def [symmetric] n_def [symmetric] nnz_def [symmetric] sc_def [symmetric] lo_def [symmetric]
  have eight: "to_int 8 = 8" by (simp add: to_int_def)
  from lt6 [OF assms(1)] consider "i = 0" | "i = Suc 0" | "i = 2" | "i = 3" | "i = 4" | "i = 5"
    by blast
  then show ?thesis
  proof cases
    case 1
    with assms(4) have "int nnz * int lo < 2 ^ 31" by (simp add: defs)
    from to_int_size_scaled [OF pos(2) this] show ?thesis using 1 by (simp add: defs)
  next
    case 2
    with assms(4) have "(int m + 1) * 8 < 2 ^ 31" by (simp add: defs)
    from rowptr_count [OF this] show ?thesis using 2 by (simp add: defs eight)
  next
    case 3
    with assms(4) have "int nnz * int sc < 2 ^ 31" by (simp add: defs)
    from to_int_size_scaled [OF pos(1) this] show ?thesis using 3 by (simp add: defs)
  next
    case 4
    with assms(4) have "int n * int sc < 2 ^ 31" by (simp add: defs)
    from to_int_size_scaled [OF pos(1) this] show ?thesis using 4 by (simp add: defs)
  next
    case 5
    with assms(4) have "int m * int sc < 2 ^ 31" by (simp add: defs)
    from to_int_size_scaled [OF pos(1) this] show ?thesis using 5 by (simp add: defs)
  next
    case 6
    have vol: "byte_volume ts a 5 < 2 ^ 31" using assms(4) 6 by simp
    have ge: "0 \<le> byte_volume ts a 5" by (simp add: byte_volume_def Let_def nth6)
    have "to_int (all_bytes_size_t ts a) = byte_volume ts a 5"
      unfolding all_bytes_eq_volume [OF assms(2) assms(3) vol]
      by (rule to_int_id) (use vol ge in linarith)+
    then show ?thesis using 6 by (simp add: SPMV_object_size_def SPMV_num_objects_def nth6)
  qed
qed

lemma byte_volume_nonneg: "i < 6 \<Longrightarrow> 0 \<le> byte_volume ts a i"
  by (drule lt6) (auto simp: byte_volume_def Let_def nth6)

lemma size_in_bytes_eq_volume:
  assumes "i < 6" "0 < sizeof_SC ts" "0 < sizeof_LO ts" "byte_volume ts a i < 2 ^ 31"
  shows "size_in_bytes ts a i = byte_volume ts a i"
proof -
  have "to_int (byte_volume ts a i) = byte_volume ts a i"
    by (rule to_int_id) (use assms byte_volume_nonneg [OF assms(1), of ts a] in linarith)+
  then show ?thesis by (simp add: size_in_bytes_def product_eq_volume [OF assms])
qed

lemma memory_traffic_eq_volume:
  assumes "i < 6" "0 < sizeof_SC ts" "0 < sizeof_LO ts" "byte_volume ts a i < 2 ^ 31"
  shows "memory_traffic ts a i = real_of_int (byte_volume ts a i)"
  using product_eq_volume [OF assms] by (simp add: memory_traffic_def flip: of_int_mult)

lemma spmv_memory_bytes_nth:
  assumes "i = 2 \<or> i = 3 \<or> i = 4" "0 < sizeof_SC ts" "byte_volume ts a i < 2 ^ 31"
  shows "spmv_memory_bytes ts a ! i = byte_volume ts a i"
proof -
  define m n nnz sc where "m = LocalNumRows a" and "n = ColMapLocalNumElements a"
    and "nnz = entries_extent a" and "sc = sizeof_SC ts"
  have pos: "0 < sc" using assms by (simp add: sc_def)
  note defs = byte_volume_def Let_def nth6 spmv_memory_bytes_def
    dim_m_def dim_n_def dim_nnz_def
    m_def [symmetric] n_def [symmetric] nnz_def [symmetric] sc_def [symmetric]
  have small: "\<And>k::nat. int k * int sc < 2 ^ 31 \<Longrightarrow> to_size_t (to_int (int k) * int sc) = int k * int sc"
  proof -
    fix k :: nat assume h: "int k * int sc < 2 ^ 31"
    have "to_size_t (int k * int sc) = int k * int sc"
      by (rule to_size_t_id) (use h in simp_all)
    then show "to_size_t (to_int (int k) * int sc) = int k * int sc"
      by (simp add: to_int_scaled [OF pos h])
  qed
  from assms(1) consider "i = 2" | "i = 3" | "i = 4" by blast
  then show ?thesis
  proof cases
    case 1
    with assms(3) have "int nnz * int sc < 2 ^ 31" by (simp add: defs)
    from small [OF this] show ?thesis using 1 by (simp add: defs)
  next
    case 2
    with assms(3) have "int n * int sc < 2 ^ 31" by (simp add: defs)
    from small [OF this] show ?thesis using 2 by (simp add: defs)
  next
    case 3
    with assms(3) have "int m * int sc < 2 ^ 31" by (simp add: defs)
    from small [OF this] show ?thesis using 3 by (simp add: defs)
  qed
qed

lemma spmv_memory_bytes_all:
  assumes "0 < sizeof_SC ts" "0 < sizeof_LO ts" "byte_volume ts a 5 < 2 ^ 31"
  shows "spmv_memory_bytes ts a ! 5 = byte_volume ts a 5"
proof -
  have idem: "\<And>v. to_size_t (to_size_t v) = to_size_t v"
    by (simp add: to_size_t_def)
  have "spmv_memory_bytes ts a ! 5 = all_bytes_size_t ts a"
    by (simp add: spmv_memory_bytes_def Let_def nth6 all_bytes_size_t_def idem)
  then show ?thesis by (simp add: all_bytes_eq_volume [OF assms])
qed


lemma small_volumes:
  "byte_volume ts0 small_matrix 0 = 4" "byte_volume ts0 small_matrix 1 = 16"
  "byte_volume ts0 small_matrix 2 = 8" "byte_volume ts0 small_matrix 3 = 8"
  "byte_volume ts0 small_matrix 4 = 8" "byte_volume ts0 small_matrix 5 = 44"
  by (simp_all add: byte_volume_def Let_def nth6 ts0_def small_matrix_def sizeof_rowptr_type_def)

text \<open>
  C10. For each of the six timers, the byte count passed to the lookup is the product of
  the object size and the object count as a 32-bit signed integer: it lies in the range
  of \<^verbatim>\<open>int\<close> and is congruent to the product modulo \<open>2\<^sup>3\<^sup>2\<close>. The memory traffic is
  the product of the same two factors without wrap-around. Where the byte volume of the
  object is below \<open>2\<^sup>3\<^sup>1\<close>, the byte count, the memory traffic and the byte volume are
  the same number.
\<close>

theorem byte_count_and_traffic:
  assumes "i < NUM_TIMERS"
  shows "size_in_bytes ts a i = to_int (SPMV_object_size ts ! i * SPMV_num_objects ts a ! i)
    \<and> - (2 ^ 31) \<le> size_in_bytes ts a i \<and> size_in_bytes ts a i < 2 ^ 31
    \<and> size_in_bytes ts a i mod 2 ^ 32 = (SPMV_object_size ts ! i * SPMV_num_objects ts a ! i) mod 2 ^ 32
    \<and> memory_traffic ts a i = real_of_int (SPMV_object_size ts ! i * SPMV_num_objects ts a ! i)
    \<and> (0 < sizeof_SC ts \<and> 0 < sizeof_LO ts \<and> byte_volume ts a i < 2 ^ 31 \<longrightarrow>
         size_in_bytes ts a i = byte_volume ts a i
         \<and> memory_traffic ts a i = real_of_int (byte_volume ts a i)
         \<and> real_of_int (size_in_bytes ts a i) = memory_traffic ts a i)"
proof -
  have i6: "i < 6" using assms by (simp add: NUM_TIMERS_def)
  have a: "size_in_bytes ts a i = to_int (SPMV_object_size ts ! i * SPMV_num_objects ts a ! i)"
    by (simp add: size_in_bytes_def)
  have b: "- (2 ^ 31) \<le> size_in_bytes ts a i \<and> size_in_bytes ts a i < 2 ^ 31"
    unfolding size_in_bytes_def by (rule to_int_range)
  have c: "size_in_bytes ts a i mod 2 ^ 32
      = (SPMV_object_size ts ! i * SPMV_num_objects ts a ! i) mod 2 ^ 32"
    unfolding size_in_bytes_def by (rule to_int_mod)
  have d: "memory_traffic ts a i = real_of_int (SPMV_object_size ts ! i * SPMV_num_objects ts a ! i)"
    by (simp add: memory_traffic_def)
  have e: "size_in_bytes ts a i = byte_volume ts a i
         \<and> memory_traffic ts a i = real_of_int (byte_volume ts a i)
         \<and> real_of_int (size_in_bytes ts a i) = memory_traffic ts a i"
    if h: "0 < sizeof_SC ts \<and> 0 < sizeof_LO ts \<and> byte_volume ts a i < 2 ^ 31"
  proof -
    have p: "SPMV_object_size ts ! i * SPMV_num_objects ts a ! i = byte_volume ts a i"
      using product_eq_volume [OF i6] h by blast
    have "to_int (byte_volume ts a i) = byte_volume ts a i"
      by (rule to_int_id) (use h byte_volume_nonneg [OF i6, of ts a] in linarith)+
    then show ?thesis using p by (simp add: a d)
  qed
  from a b c d e show ?thesis by blast
qed


text \<open>The theorem at the values of the one-entry matrix: both numbers are 8 bytes.\<close>

theorem byte_count_and_traffic_witness:
  "size_in_bytes ts0 small_matrix 2 = 8 \<and> memory_traffic ts0 small_matrix 2 = 8"
  using byte_count_and_traffic [of 2 ts0 small_matrix]
  by (simp add: small_volumes NUM_TIMERS_def) (simp add: ts0_def)

text \<open>
  Past that bound the two part: with 268435456 values of 8 bytes the byte count wraps to
  \<open>- 2\<^sup>3\<^sup>1\<close> and the memory traffic is \<open>2\<^sup>3\<^sup>1\<close>.
\<close>

lemma byte_count_wraps:
  "size_in_bytes ts0 large_matrix 2 = - 2147483648 \<and> memory_traffic ts0 large_matrix 2 = 2147483648"
  by (simp add: size_in_bytes_def memory_traffic_def SPMV_object_size_def SPMV_num_objects_def
      nth6 dim_nnz_def to_int_def ts0_def large_matrix_def)

subsection \<open>The local time model\<close>

lemma GB_pos: "0 < GB" by (simp add: GB_def)

lemma bandwidth_roundtrip:
  assumes "t \<noteq> 0" "v \<noteq> 0"
  shows "v / (GB * convert_time_to_bandwidth_gbs t 1 v) = t"
  using assms GB_pos by (simp add: convert_time_to_bandwidth_gbs_def)

lemma bandwidth_roundtrip_any:
  assumes "v \<noteq> 0"
  shows "v / (GB * convert_time_to_bandwidth_gbs t 1 v) = t"
  using assms GB_pos by (cases "t = 0") (simp_all add: convert_time_to_bandwidth_gbs_def)

lemma to_int_to_size_t: "to_int (to_size_t v) = to_int v"
proof -
  have "(v mod 2 ^ 64 + 2 ^ 31) mod 2 ^ 32 = (v mod 2 ^ 64 mod 2 ^ 32 + 2 ^ 31) mod (2 ^ 32 :: int)"
    by (simp only: mod_add_left_eq)
  also have "v mod 2 ^ 64 mod 2 ^ 32 = v mod (2 ^ 32 :: int)"
    by (rule mod_mod_cancel) (simp add: le_imp_power_dvd)
  also have "(v mod 2 ^ 32 + 2 ^ 31) mod 2 ^ 32 = (v + 2 ^ 31) mod (2 ^ 32 :: int)"
    by (simp only: mod_add_left_eq)
  finally show ?thesis by (simp add: to_int_def to_size_t_def)
qed

lemma all_bytes_mod:
  assumes "LocalNumRows a < 2 ^ 31 - 1" "ColMapLocalNumElements a < 2 ^ 31"
    "entries_extent a < 2 ^ 31"
  shows "all_bytes_size_t ts a = to_size_t (byte_volume ts a 5)"
proof -
  define m n nnz sc lo where "m = LocalNumRows a" and "n = ColMapLocalNumElements a"
    and "nnz = entries_extent a" and "sc = sizeof_SC ts" and "lo = sizeof_LO ts"
  have m: "to_int (int m) = int m" using assms(1) by (intro to_int_of_nat) (simp add: m_def)
  have m1: "to_int (int m + 1) = int m + 1"
    using assms(1) by (intro to_int_id) (simp_all add: m_def)
  have n: "to_int (int n) = int n" using assms(2) by (intro to_int_of_nat) (simp add: n_def)
  have z: "to_int (int nnz) = int nnz" using assms(3) by (intro to_int_of_nat) (simp add: nnz_def)
  have vol: "byte_volume ts a 5
      = (int m + 1) * 8 + int nnz * int lo + int nnz * int sc + int n * int sc + int m * int sc"
    by (simp add: byte_volume_def Let_def nth6 sizeof_rowptr_type_def m_def n_def nnz_def sc_def lo_def)
  have "all_bytes_size_t ts a
      = ((int m + 1) * 8 + int nnz * int lo + int nnz * int sc + int n * int sc + int m * int sc)
          mod 2 ^ 64"
    unfolding all_bytes_size_t_def dim_m_def dim_n_def dim_nnz_def sizeof_rowptr_type_def
      m_def [symmetric] n_def [symmetric] nnz_def [symmetric] sc_def [symmetric] lo_def [symmetric]
      m m1 n z to_size_t_def
    by (simp only: of_nat_numeral mod_add_eq mod_mod_trivial)
  then show ?thesis by (simp add: vol to_size_t_def)
qed

lemma truncated_lookup:
  assumes "LocalNumRows (A r) < 2 ^ 31 - 1" "ColMapLocalNumElements (A r) < 2 ^ 31"
    "entries_extent (A r) < 2 ^ 31"
  shows "avg_time ts r 5 = stream_vector_lookup (PM r) (to_int (byte_volume ts (A r) 5))"
proof -
  have "size_in_bytes ts (A r) 5 = to_int (to_int (all_bytes_size_t ts (A r)))"
    by (simp add: size_in_bytes_def SPMV_object_size_def SPMV_num_objects_def nth6)
  also have "\<dots> = to_int (all_bytes_size_t ts (A r))"
    using to_int_range [of "all_bytes_size_t ts (A r)"] by (intro to_int_id) simp_all
  also have "\<dots> = to_int (byte_volume ts (A r) 5)"
    by (simp add: all_bytes_mod [OF assms] to_int_to_size_t)
  finally show ?thesis by (simp add: avg_time_def SPMV_corrected_def nth6)
qed

lemma avg_time_volume:
  assumes "i < 6" "0 < sizeof_SC ts" "0 < sizeof_LO ts" "byte_volume ts (A r) i < 2 ^ 31"
  shows "avg_time ts r i =
     (if i = 5 then stream_vector_lookup (PM r) (byte_volume ts (A r) i)
      else latency_corrected_stream_vector_lookup (PM r) (byte_volume ts (A r) i))"
proof -
  have "size_in_bytes ts (A r) i = byte_volume ts (A r) i"
    using size_in_bytes_eq_volume assms by simp
  moreover have "(SPMV_corrected ! i = 1) = (i \<noteq> 5)"
    using lt6 [OF assms(1)] by (auto simp: SPMV_corrected_def nth6)
  ultimately show ?thesis by (auto simp: avg_time_def)
qed

lemma avg_distributed_volume:
  assumes "i < 6" "me < length W" "0 < sizeof_SC ts" "0 < sizeof_LO ts"
    "\<forall>r\<in>set W. byte_volume ts (A r) i < 2 ^ 31"
  shows "avg_distributed ts W me i = lookup_time ts W i"
proof -
  have eq: "map (\<lambda>r. avg_time ts r i) W
      = map (\<lambda>r. if i = 5 then stream_vector_lookup (PM r) (byte_volume ts (A r) i)
                else latency_corrected_stream_vector_lookup (PM r) (byte_volume ts (A r) i)) W"
    by (rule map_cong [OF refl]) (use assms in \<open>simp add: avg_time_volume\<close>)
  show ?thesis
  proof (cases "length W > 1")
    case True
    then show ?thesis by (simp add: avg_distributed_def reduceAll_SUM_def lookup_time_def eq)
  next
    case False
    with assms(2) have "length W = 1" "me = 0" by simp_all
    then obtain r where W: "W = [r]" by (cases W) simp_all
    have "byte_volume ts (A r) i < 2 ^ 31" using assms(5) W by simp
    from avg_time_volume [OF assms(1) assms(3) assms(4) this] show ?thesis
      using W \<open>me = 0\<close> by (simp add: avg_distributed_def lookup_time_def)
  qed
qed


lemma composite_unfold:
  "minimum_local_composite_time ts W me =
     avg_latency W me + composite_term ts W me 0 + composite_term ts W me 1
       + composite_term ts W me 2 + composite_term ts W me 3 + composite_term ts W me 4"
proof -
  have "[0 ..< NUM_TIMERS - 1] = [0, 1, 2, 3, 4]"
    by (simp add: NUM_TIMERS_def upt_rec)
  then show ?thesis by (simp add: minimum_local_composite_time_def)
qed

lemma composite_term_volume:
  assumes "i = 2 \<or> i = 3 \<or> i = 4" "me < length W" "0 < sizeof_SC ts" "0 < sizeof_LO ts"
    "\<forall>r\<in>set W. byte_volume ts (A r) i < 2 ^ 31"
  shows "composite_term ts W me i = object_time ts W me i"
proof -
  have i6: "i < 6" using assms(1) by auto
  have mem: "W ! me \<in> set W" using assms(2) by simp
  then have vol: "byte_volume ts (A (W ! me)) i < 2 ^ 31" using assms(5) by blast
  show ?thesis
    unfolding composite_term_def object_time_def gb_per_sec_def
      spmv_memory_bytes_nth [OF assms(1) assms(3) vol]
      memory_traffic_eq_volume [OF i6 assms(3) assms(4) vol]
      avg_distributed_volume [OF i6 assms(2) assms(3) assms(4) assms(5)]
    by (rule refl)
qed

lemmas report_defs =
  minimum_local_all_time_def minimum_local_composite_time_def composite_term_def
  gb_per_sec_def convert_time_to_bandwidth_gbs_def avg_distributed_def avg_time_def
  memory_traffic_def size_in_bytes_def avg_latency_def spmv_memory_bytes_def
  SPMV_num_objects_def SPMV_object_size_def SPMV_corrected_def all_bytes_size_t_def
  dim_m_def dim_n_def dim_nnz_def to_int_def to_size_t_def sizeof_rowptr_type_def
  NUM_TIMERS_def GB_def Let_def nth6 upt_rec

lemmas claim_defs =
  lookup_time_def object_time_def composite_as_specified_def byte_volume_def
  convert_time_to_bandwidth_gbs_def avg_latency_def sizeof_rowptr_type_def GB_def Let_def nth6

lemmas input_defs = ts0_def unit_tables_def small_matrix_def large_matrix_def one_process_def

text \<open>
  C1, as amended. On every process, where the byte volumes of the values, of the input
  vector and of the output vector are below \<open>2\<^sup>3\<^sup>1\<close> on all processes and positive on
  this one, and their averaged lookup times are not zero: the composite time is the
  averaged launch latency, added once, plus five terms, and the terms of the values, the
  input vector and the output vector are each that object's byte volume divided by the
  bandwidth that the latency-corrected lookup at that object's own size gives, which is
  the looked-up time itself. Nothing is said about the terms of the row pointer and of
  the column indices.
\<close>

theorem composite_model:
  assumes "me < length W" "0 < sizeof_SC ts" "0 < sizeof_LO ts"
    and "\<forall>r\<in>set W. \<forall>i\<in>{2, 3, 4}. byte_volume ts (A r) i < 2 ^ 31"
    and "\<forall>i\<in>{2, 3, 4}. 0 < byte_volume ts (A (W ! me)) i \<and> lookup_time ts W i \<noteq> 0"
  shows "minimum_local_composite_time ts W me =
           avg_latency W me + composite_term ts W me 0 + composite_term ts W me 1
             + object_time ts W me 2 + object_time ts W me 3 + object_time ts W me 4
         \<and> (\<forall>i\<in>{2, 3, 4}. object_time ts W me i = lookup_time ts W i)"
proof -
  have t: "composite_term ts W me i = object_time ts W me i" if "i = 2 \<or> i = 3 \<or> i = 4" for i
    using composite_term_volume [OF that assms(1) assms(2) assms(3)] assms(4) that by blast
  have o: "object_time ts W me i = lookup_time ts W i" if "i \<in> {2, 3, 4}" for i
  proof -
    from assms(5) that have "0 < byte_volume ts (A (W ! me)) i" "lookup_time ts W i \<noteq> 0"
      by blast+
    then show ?thesis
      unfolding object_time_def by (intro bandwidth_roundtrip) simp_all
  qed
  show ?thesis
    unfolding composite_unfold using t [of 2] t [of 3] t [of 4] o by simp
qed

text \<open>
  The claim as the specification states it fails on one process at the one-entry matrix,
  with every lookup and the latency at one second: the specification's sum is ten
  seconds, five lookups and five latencies, and the code gives 8.25. The code adds the
  latency once, and it divides the 16 bytes of the row pointer by the bandwidth of the
  4-byte column-index lookup and the 4 bytes of the column indices by the bandwidth of
  the 16-byte row-pointer lookup.
\<close>

theorem composite_counterexample:
  "minimum_local_composite_time ts0 (one_process small_matrix) 0 = 33 / 4
   \<and> composite_as_specified ts0 (one_process small_matrix) 0 = 10
   \<and> minimum_local_composite_time ts0 (one_process small_matrix) 0
       \<noteq> composite_as_specified ts0 (one_process small_matrix) 0"
proof -
  have code: "minimum_local_composite_time ts0 (one_process small_matrix) 0 = 33 / 4"
    by (simp add: report_defs input_defs)
  have claim: "composite_as_specified ts0 (one_process small_matrix) 0 = 10"
    by (simp add: claim_defs input_defs)
  show ?thesis unfolding code claim by simp
qed

text \<open>The amended statement at the same input: three of the five terms are one second.\<close>

theorem composite_model_witness:
  "minimum_local_composite_time ts0 (one_process small_matrix) 0
     = 1 + composite_term ts0 (one_process small_matrix) 0 0
         + composite_term ts0 (one_process small_matrix) 0 1 + 1 + 1 + 1"
proof -
  have l: "lookup_time ts0 (one_process small_matrix) 2 = 1"
    "lookup_time ts0 (one_process small_matrix) 3 = 1"
    "lookup_time ts0 (one_process small_matrix) 4 = 1"
    by (simp_all add: lookup_time_def unit_tables_def one_process_def)
  have lat: "avg_latency (one_process small_matrix) 0 = 1"
    by (simp add: avg_latency_def unit_tables_def one_process_def)
  have W: "length (one_process small_matrix) = 1"
    "set (one_process small_matrix) = {\<lparr>A = small_matrix, PM = unit_tables\<rparr>}"
    "one_process small_matrix ! 0 = \<lparr>A = small_matrix, PM = unit_tables\<rparr>"
    by (simp_all add: one_process_def)
  show ?thesis
    using composite_model [of 0 "one_process small_matrix" ts0]
    by (simp add: l lat W small_volumes) (simp add: ts0_def)
qed

text \<open>
  The two terms the amended statement leaves open, in general: the bytes of the row
  pointer are divided by the bandwidth of timer 0, the column indices, and the bytes of
  the column indices by the bandwidth of timer 1, the row pointer.
\<close>

lemma composite_terms_crossed:
  "composite_term ts W me 0 =
     real_of_int (to_size_t (to_int (dim_m (A (W ! me)) + 1) * int sizeof_rowptr_type))
       / (GB * convert_time_to_bandwidth_gbs (avg_distributed ts W me 0) 1
                 (real_of_int (to_int (int (sizeof_LO ts))) * real_of_int (dim_nnz (A (W ! me)))))"
  "composite_term ts W me 1 =
     real_of_int (to_size_t (dim_nnz (A (W ! me)) * int (sizeof_LO ts)))
       / (GB * convert_time_to_bandwidth_gbs (avg_distributed ts W me 1) 1
                 (real_of_int (to_int (int sizeof_rowptr_type))
                    * real_of_int (to_int (dim_m (A (W ! me)) + 1))))"
  by (simp_all add: composite_term_def spmv_memory_bytes_def Let_def nth6 gb_per_sec_def
      memory_traffic_def SPMV_object_size_def SPMV_num_objects_def)

text \<open>
  C7, as amended. Where the sum of all touched bytes is below \<open>2\<^sup>3\<^sup>1\<close> on every
  process, the time of the "all" model is the time of one lookup in the stream table,
  without latency correction, at that sum (averaged over the processes when there are
  several), and no latency is added. In general, for local dimensions that fit an
  \<^verbatim>\<open>int\<close>, the lookup of a process is made at the sum truncated to a 32-bit
  \<^verbatim>\<open>int\<close>.
\<close>

theorem all_model_single_lookup:
  assumes "me < length W" "0 < sizeof_SC ts" "0 < sizeof_LO ts"
  shows "((\<forall>r\<in>set W. byte_volume ts (A r) 5 < 2 ^ 31) \<longrightarrow>
            minimum_local_all_time ts W me = lookup_time ts W 5)
       \<and> (\<forall>r\<in>set W.
            LocalNumRows (A r) < 2 ^ 31 - 1 \<and> ColMapLocalNumElements (A r) < 2 ^ 31
            \<and> entries_extent (A r) < 2 ^ 31 \<longrightarrow>
            avg_time ts r 5 = stream_vector_lookup (PM r) (to_int (byte_volume ts (A r) 5)))"
proof -
  have below: "minimum_local_all_time ts W me = lookup_time ts W 5"
    if all: "\<forall>r\<in>set W. byte_volume ts (A r) 5 < 2 ^ 31"
  proof -
    have mem: "W ! me \<in> set W" using assms(1) by simp
    then have vol: "byte_volume ts (A (W ! me)) 5 < 2 ^ 31" using all by blast
    have pos: "0 < byte_volume ts (A (W ! me)) 5"
      by (simp add: byte_volume_def Let_def nth6 sizeof_rowptr_type_def add_pos_nonneg)
    have "minimum_local_all_time ts W me
        = real_of_int (byte_volume ts (A (W ! me)) 5)
            / (GB * convert_time_to_bandwidth_gbs (lookup_time ts W 5) 1
                      (real_of_int (byte_volume ts (A (W ! me)) 5)))"
      unfolding minimum_local_all_time_def gb_per_sec_def NUM_TIMERS_def
      by (simp add: spmv_memory_bytes_all [OF assms(2) assms(3) vol]
          memory_traffic_eq_volume [OF _ assms(2) assms(3) vol]
          avg_distributed_volume [OF _ assms(1) assms(2) assms(3) all])
    also have "\<dots> = lookup_time ts W 5"
      by (rule bandwidth_roundtrip_any) (use pos in simp)
    finally show ?thesis .
  qed
  from below truncated_lookup show ?thesis by blast
qed

text \<open>
  The claim fails without the bound. With 67108864 rows and columns and 268435456 entries
  the sum is 4831838216 bytes; stored into an \<^verbatim>\<open>int\<close> it is 536870920. The lookup
  is made at that size and the bandwidth is computed from it, and the predicted time is
  just under 18 seconds, where a lookup at the sum gives two seconds.
\<close>

theorem all_model_counterexample:
  "minimum_local_all_time ts0 (one_process large_matrix) 0 = 1207959554 / 67108865
   \<and> lookup_time ts0 (one_process large_matrix) 5 = 2
   \<and> minimum_local_all_time ts0 (one_process large_matrix) 0
       \<noteq> lookup_time ts0 (one_process large_matrix) 5"
proof -
  have code: "minimum_local_all_time ts0 (one_process large_matrix) 0 = 1207959554 / 67108865"
    by (simp add: report_defs input_defs)
  have claim: "lookup_time ts0 (one_process large_matrix) 5 = 2"
    by (simp add: claim_defs input_defs)
  show ?thesis unfolding code claim by simp
qed

lemma truncated_sum:
  "byte_volume ts0 large_matrix 5 = 4831838216 \<and> size_in_bytes ts0 large_matrix 5 = 536870920"
  by (simp add: byte_volume_def size_in_bytes_def SPMV_object_size_def SPMV_num_objects_def
      all_bytes_size_t_def dim_m_def dim_n_def dim_nnz_def to_int_def to_size_t_def
      sizeof_rowptr_type_def Let_def nth6 ts0_def large_matrix_def)

text \<open>The amended statement at the one-entry matrix: 44 bytes, two seconds.\<close>

theorem all_model_single_lookup_witness:
  "minimum_local_all_time ts0 (one_process small_matrix) 0 = 2
   \<and> avg_time ts0 \<lparr>A = small_matrix, PM = unit_tables\<rparr> 5 = 2"
proof -
  have l: "lookup_time ts0 (one_process small_matrix) 5 = 2"
    by (simp add: lookup_time_def small_volumes one_process_def) (simp add: unit_tables_def)
  have W: "length (one_process small_matrix) = 1"
    "set (one_process small_matrix) = {\<lparr>A = small_matrix, PM = unit_tables\<rparr>}"
    by (simp_all add: one_process_def)
  have sz: "0 < sizeof_SC ts0" "0 < sizeof_LO ts0"
    by (simp_all add: ts0_def)
  have me: "0 < length (one_process small_matrix)"
    by (simp add: W)
  have dims: "LocalNumRows small_matrix < 2 ^ 31 - 1" "ColMapLocalNumElements small_matrix < 2 ^ 31"
    "entries_extent small_matrix < 2 ^ 31"
    by (simp_all add: small_matrix_def)
  have look: "stream_vector_lookup unit_tables (to_int 44) = 2"
    by (simp add: unit_tables_def to_int_def)
  from all_model_single_lookup [OF me sz] dims show ?thesis
    by (simp add: l W small_volumes look)
qed

subsection \<open>The remote part\<close>

text \<open>
  C2, at the input where the source departs from it: one process, a matrix that has a
  graph and whose graph has no importer. The function ends at line 171 with the
  dereference of the null importer, before any number is reported.
\<close>

theorem serial_run_null_importer:
  "report_performance_models ts0 (one_process serial_matrix) 0 = Inl NullReference"
  by (simp add: report_performance_models_def make_halopong_table_def one_process_def
      serial_matrix_def)

text \<open>
  The second block, at lines 291 to 293, does test the importer: on the same matrix it
  leaves the four remote times at zero.
\<close>

lemma remote_part_no_importer:
  assumes "Importer (A (W ! me)) = None"
  shows "remote_part ts W me =
     Inr \<lparr> time_pack_unpack_outofplace = 0, time_pack_unpack_inplace = 0,
           time_communicate_ping = 0, time_communicate_halo = 0 \<rparr>"
  using assms by (simp add: remote_part_def Let_def)

lemma report_null_importer:
  assumes "hasCrsGraph (A (W ! me))" "Importer (A (W ! me)) = None"
  shows "report_performance_models ts W me = Inl NullReference"
  using assms by (simp add: report_performance_models_def make_halopong_table_def)

lemma snd_send_loop:
  "snd (foldl (send_body ts pm) st send_lengths) =
     (if send_lengths = [] then snd st
      else to_size_t (int (last send_lengths) * int (sizeof_SC ts)))"
  by (induction send_lengths arbitrary: st) (simp_all add: send_body_def)

lemma recv_loop_in_range:
  assumes "i + length recv_lengths \<le> length send_lengths"
  shows "\<exists>t. recv_loop ts pm send_lengths i recv_lengths st =
     Inr (t, if recv_lengths = [] then snd st
             else to_size_t (int (send_lengths ! (i + length recv_lengths - 1)) * int (sizeof_SC ts)))"
  using assms
proof (induction recv_lengths arbitrary: i st)
  case Nil
  then show ?case by (cases st) simp
next
  case (Cons len rest)
  then have i: "i < length send_lengths" and r: "Suc i + length rest \<le> length send_lengths"
    by simp_all
  from Cons.IH [OF r] show ?case using i by (cases rest) auto
qed

lemma recv_loop_out_of_range:
  assumes "i \<le> length send_lengths" "length send_lengths < i + length recv_lengths"
  shows "recv_loop ts pm send_lengths i recv_lengths st = Inl RangeError"
  using assms
  by (induction recv_lengths arbitrary: i st) auto

text \<open>
  C9, as amended. With \<open>k\<close> send lengths and \<open>j \<ge> 1\<close> receive lengths, and no product
  past the range of \<^verbatim>\<open>size_t\<close>. When \<open>j \<le> k\<close>, the argument of the halo-pong lookup
  is the last send length times the size of a scalar over \<open>2k\<close>, plus send length number
  \<open>j\<close> times the size of a scalar over \<open>2j\<close>; the receive lengths enter through their
  number only: other receive lengths of the same number, and other tables, give the same
  argument. When \<open>j > k\<close>, the second loop reads \<^verbatim>\<open>send_lengths\<close> past its end and no
  argument is computed.
\<close>

theorem halo_lookup_size:
  assumes "1 \<le> length recv_lengths"
    and "\<forall>s\<in>set send_lengths. int s * int (sizeof_SC ts) < 2 ^ 64"
  shows "(length recv_lengths \<le> length send_lengths \<longrightarrow>
           avg_size_per_msg ts pm send_lengths recv_lengths =
             Inr (real (send_lengths ! (length send_lengths - 1) * sizeof_SC ts)
                    / (2 * real (length send_lengths))
                  + real (send_lengths ! (length recv_lengths - 1) * sizeof_SC ts)
                    / (2 * real (length recv_lengths)))
           \<and> (\<forall>pm' recv_lengths'. length recv_lengths' = length recv_lengths \<longrightarrow>
                 avg_size_per_msg ts pm' send_lengths recv_lengths'
                   = avg_size_per_msg ts pm send_lengths recv_lengths))
       \<and> (length send_lengths < length recv_lengths \<longrightarrow>
             avg_size_per_msg ts pm send_lengths recv_lengths = Inl RangeError)"
proof -
  have wrap: "to_size_t (int s * int (sizeof_SC ts)) = int (s * sizeof_SC ts)"
    if "s \<in> set send_lengths" for s
    using assms(2) that by (simp add: to_size_t_def)
  have formula: "avg_size_per_msg ts q send_lengths rl =
           Inr (real (send_lengths ! (length send_lengths - 1) * sizeof_SC ts)
                  / (2 * real (length send_lengths))
                + real (send_lengths ! (length recv_lengths - 1) * sizeof_SC ts)
                  / (2 * real (length recv_lengths)))"
    if len: "length rl = length recv_lengths" and le: "length recv_lengths \<le> length send_lengths"
    for q rl
  proof -
    have ne: "send_lengths \<noteq> []" "recv_lengths \<noteq> []" using assms(1) le by auto
    have rne: "rl \<noteq> []" using len ne by auto
    have "0 + length rl \<le> length send_lengths" using len le by simp
    from recv_loop_in_range [OF this, of ts q "(0, 0)"] rne obtain t where
      rl: "recv_loop ts q send_lengths 0 rl (0, 0)
            = Inr (t, to_size_t (int (send_lengths ! (length rl - 1)) * int (sizeof_SC ts)))"
      by auto
    have "length rl - 1 < length send_lengths" using len le assms(1) by simp
    then have m1: "send_lengths ! (length rl - 1) \<in> set send_lengths" by simp
    have m2: "last send_lengths \<in> set send_lengths" using ne by simp
    have sl: "snd (send_loop ts q send_lengths) = int (last send_lengths * sizeof_SC ts)"
      unfolding send_loop_def snd_send_loop using ne wrap [OF m2] by simp
    show ?thesis
      unfolding avg_size_per_msg_def rl sl
      using wrap [OF m1] len ne by (simp add: last_conv_nth)
  qed
  have past: "avg_size_per_msg ts pm send_lengths recv_lengths = Inl RangeError"
    if "length send_lengths < length recv_lengths"
  proof -
    have "recv_loop ts pm send_lengths 0 recv_lengths (0, 0) = Inl RangeError"
      by (rule recv_loop_out_of_range) (use that in simp_all)
    then show ?thesis by (simp add: avg_size_per_msg_def)
  qed
  show ?thesis using formula [of recv_lengths pm] formula past by simp
qed

text \<open>
  The claim as stated, for every \<open>k, j \<ge> 1\<close>, fails at one send length and two receive
  lengths: the second pass of the loop at lines 344 to 347 reads \<^verbatim>\<open>send_lengths[1]\<close>,
  which does not exist, and no average message size is passed to the lookup.
\<close>

theorem halo_lookup_size_counterexample:
  "avg_size_per_msg ts0 unit_tables [3] [100, 200] = Inl RangeError"
  by (simp add: avg_size_per_msg_def)

text \<open>
  Three send lengths 3, 5, 7 and two receive lengths 100, 200 with 8-byte scalars: the
  argument is \<open>56 / 6 + 40 / 4\<close>, and 100 and 200 do not enter it.
\<close>

theorem halo_lookup_size_witness:
  "avg_size_per_msg ts0 unit_tables [3, 5, 7] [100, 200] = Inr (28 / 3 + 10)"
  using halo_lookup_size [of "[100, 200]" "[3, 5, 7]" ts0 unit_tables]
  by (simp add: ts0_def)


section \<open>The experiment loop: results\<close>

subsection \<open>The order of the experiments\<close>

lemma draw_le: "fst (draw i g) \<le> i"
  by (simp add: draw_def split: list.splits)

lemma mset_iter_swap: "i < length xs \<Longrightarrow> j < length xs \<Longrightarrow> mset (iter_swap i j xs) = mset xs"
  unfolding iter_swap_def by (rule mset_swap)

lemma length_iter_swap: "length (iter_swap i j xs) = length xs"
  by (simp add: iter_swap_def)

lemma shuffle_from_perm:
  "i + k \<le> length xs \<Longrightarrow> mset (fst (shuffle_from k i xs g)) = mset xs"
proof (induction k arbitrary: i xs g)
  case 0
  then show ?case by simp
next
  case (Suc k)
  obtain j g' where d: "draw i g = (j, g')" by (cases "draw i g")
  with draw_le [of i g] have "j \<le> i" by simp
  with Suc.prems have lt: "i < length xs" "j < length xs" by simp_all
  have "Suc i + k \<le> length (iter_swap i j xs)"
    using Suc.prems by (simp add: length_iter_swap)
  from Suc.IH [OF this] show ?case
    by (simp add: d mset_iter_swap [OF lt])
qed

lemma shuffle_perm: "mset (fst (shuffle xs g)) = mset xs"
proof (cases xs)
  case Nil
  then show ?thesis by (simp add: shuffle_def)
next
  case (Cons a as)
  then have "1 + (length xs - 1) \<le> length xs" by simp
  from shuffle_from_perm [OF this] show ?thesis by (simp add: shuffle_def)
qed

lemma shuffle_length: "length (fst (shuffle xs g)) = length xs"
  using shuffle_perm [of xs g] by (metis size_mset)

lemma broadcast_replicate:
  assumes "0 < n" "length sh = length xs"
  shows "broadcast 0 ((replicate n xs)[0 := sh]) = replicate n sh"
proof -
  have root: "(replicate n xs)[0 := sh] ! 0 = sh" using assms(1) by simp
  have "\<And>b. b \<in> set ((replicate n xs)[0 := sh]) \<Longrightarrow> length b = length sh"
    using assms(2) by (auto dest!: set_update_subset_insert [THEN subsetD])
  then have "map (\<lambda>b. take (length b) sh @ drop (length sh) b) ((replicate n xs)[0 := sh])
      = map (\<lambda>b. sh) ((replicate n xs)[0 := sh])"
    by (intro map_cong refl) simp
  then show ?thesis
    by (simp add: broadcast_def root map_replicate_const)
qed


lemma filter_has_case:
  assumes "\<forall>e\<in>set ys. has_case cfg e"
  shows "filter (has_case cfg) ys = ys"
  using assms by (simp add: filter_id_conv)

lemma listed_has_case:
  assumes "HAVE_MUELU_TPETRA cfg" "e \<in> set (my_experiments cfg cl numProc)"
  shows "has_case cfg e"
  using assms
  by (cases e) (auto simp: my_experiments_def add_experiments_def push_back_if_def split: if_splits)

lemma distinct_my_experiments: "distinct (my_experiments cfg cl numProc)"
  by (simp add: my_experiments_def add_experiments_def push_back_if_def)


lemma executed_length:
  "length (executed ((repetition cfg ^^ k) s)) = length (executed s) + k"
  by (induction k) (simp_all add: repetition_def Let_def split: prod.splits)

lemma experiment_loop_length:
  assumes "my_experiments cfg cl numProc \<noteq> []"
  shows "length (executed (experiment_loop cfg cl numProc nrepeat g)) = nrepeat"
  using assms by (simp add: experiment_loop_def Let_def executed_length)

lemma shuffles_Suc: "shuffles (Suc k) p = shuffle (fst (shuffles k p)) (snd (shuffles k p))"
  by (simp add: shuffles_def split_beta)

lemma shuffles_0: "shuffles 0 p = p"
  by (simp add: shuffles_def)

lemma shuffles_perm: "mset (fst (shuffles k (xs, h))) = mset xs"
proof (induction k)
  case 0
  then show ?case by (simp add: shuffles_0)
next
  case (Suc k)
  then show ?case by (simp only: shuffles_Suc shuffle_perm)
qed

lemma repetition_replicate:
  assumes "0 < n" "\<forall>e\<in>set xs. has_case cfg e" "experiments s = replicate n xs"
  shows "repetition cfg s =
      \<lparr> experiments = replicate n (fst (shuffle xs (random_source s))),
        random_source = snd (shuffle xs (random_source s)),
        executed = executed s @ [replicate n (fst (shuffle xs (random_source s)))] \<rparr>"
proof -
  obtain sh g' where sh: "shuffle xs (random_source s) = (sh, g')"
    by (cases "shuffle xs (random_source s)")
  have len: "length sh = length xs" using shuffle_length [of xs "random_source s"] sh by simp
  have first: "experiments s ! 0 = xs" using assms(1,3) by simp
  have bc: "broadcast 0 ((experiments s)[0 := sh]) = replicate n sh"
    unfolding assms(3) by (rule broadcast_replicate [OF assms(1) len])
  have "set sh = set xs"
    using shuffle_perm [of xs "random_source s"] sh by (metis fst_conv mset_eq_setD)
  then have fil: "filter (has_case cfg) sh = sh" using assms(2) by (intro filter_has_case) simp
  show ?thesis
    by (simp add: repetition_def first sh bc fil Let_def)
qed

lemma repetitions_trace:
  assumes "0 < n" "\<forall>e\<in>set xs. has_case cfg e"
  shows "(repetition cfg ^^ k) \<lparr> experiments = replicate n xs, random_source = h, executed = tr \<rparr> =
      \<lparr> experiments = replicate n (fst (shuffles k (xs, h))),
        random_source = snd (shuffles k (xs, h)),
        executed = tr @ map (\<lambda>i. replicate n (fst (shuffles (Suc i) (xs, h)))) [0 ..< k] \<rparr>"
proof (induction k)
  case 0
  then show ?case by (simp add: shuffles_0)
next
  case (Suc k)
  let ?s = "\<lparr> experiments = replicate n (fst (shuffles k (xs, h))),
        random_source = snd (shuffles k (xs, h)),
        executed = tr @ map (\<lambda>i. replicate n (fst (shuffles (Suc i) (xs, h)))) [0 ..< k] \<rparr>"
  have "set (fst (shuffles k (xs, h))) = set xs"
    using shuffles_perm [of k xs h] by (rule mset_eq_setD)
  then have c: "\<forall>e\<in>set (fst (shuffles k (xs, h))). has_case cfg e"
    using assms(2) by simp
  have e: "experiments ?s = replicate n (fst (shuffles k (xs, h)))" by simp
  have "(repetition cfg ^^ Suc k) \<lparr> experiments = replicate n xs, random_source = h, executed = tr \<rparr>
      = repetition cfg ?s"
    by (simp add: Suc.IH)
  also have "\<dots> = \<lparr> experiments = replicate n (fst (shuffles (Suc k) (xs, h))),
        random_source = snd (shuffles (Suc k) (xs, h)),
        executed = tr @ map (\<lambda>i. replicate n (fst (shuffles (Suc i) (xs, h)))) [0 ..< Suc k] \<rparr>"
    unfolding repetition_replicate [OF assms(1) c e]
    by (simp add: shuffles_Suc)
  finally show ?case .
qed

lemma executed_is_rank0_order:
  assumes "HAVE_MUELU_TPETRA cfg" "my_experiments cfg cl numProc \<noteq> []"
    and "r < numProc" "i < nrepeat"
  shows "executed (experiment_loop cfg cl numProc nrepeat g) ! i ! r
           = rank0_order (my_experiments cfg cl numProc) g i"
proof -
  let ?E = "my_experiments cfg cl numProc"
  have pos: "0 < numProc" using assms(3) by simp
  have cases: "\<forall>e\<in>set ?E. has_case cfg e"
    using listed_has_case [OF assms(1)] by blast
  have "experiment_loop cfg cl numProc nrepeat g
      = (repetition cfg ^^ nrepeat)
          \<lparr> experiments = replicate numProc ?E, random_source = g, executed = [] \<rparr>"
    unfolding experiment_loop_def Let_def using assms(2) by (rule if_P)
  then have "executed (experiment_loop cfg cl numProc nrepeat g)
      = map (\<lambda>i. replicate numProc (fst (shuffles (Suc i) (?E, g)))) [0 ..< nrepeat]"
    by (simp add: repetitions_trace [OF pos cases])
  then show ?thesis using assms(3,4) by (simp add: rank0_order_def)
qed

text \<open>The two shuffles of a list of two.\<close>

lemma shuffle_swaps: "shuffle [HYPRE, TPETRA] [0] = ([TPETRA, HYPRE], [])"
  by (simp add: shuffle_def draw_def iter_swap_def)

lemma shuffle_keeps: "shuffle [HYPRE, TPETRA] [1] = ([HYPRE, TPETRA], [])"
  by (simp add: shuffle_def draw_def iter_swap_def)

lemma rank0_order_value: "rank0_order [HYPRE, TPETRA] [0] 0 = [TPETRA, HYPRE]"
  by (simp add: rank0_order_def shuffles_def shuffle_swaps)

text \<open>
  C3. In a build with Tpetra (the driver's own assumption for the Tpetra and
  KokkosKernels experiments, line 1263) and with at least one experiment enabled, in
  every repetition \<open>i\<close> and on every process \<open>r\<close>: what the process runs is the order
  that process 0 shuffled in that repetition and broadcast; it is the order process 0
  itself runs; it is a permutation of the enabled list, so that each enabled experiment
  runs exactly once; and with any other random source \<open>g'\<close> the set of experiments run
  is the same.
\<close>

theorem same_order_on_all_processes:
  assumes "HAVE_MUELU_TPETRA cfg" "my_experiments cfg cl numProc \<noteq> []"
    and "r < numProc" "i < nrepeat"
  shows "executed (experiment_loop cfg cl numProc nrepeat g) ! i ! r
           = rank0_order (my_experiments cfg cl numProc) g i
       \<and> executed (experiment_loop cfg cl numProc nrepeat g) ! i ! r
           = executed (experiment_loop cfg cl numProc nrepeat g) ! i ! 0
       \<and> mset (executed (experiment_loop cfg cl numProc nrepeat g) ! i ! r)
           = mset (my_experiments cfg cl numProc)
       \<and> (\<forall>e\<in>set (my_experiments cfg cl numProc).
            count_list (executed (experiment_loop cfg cl numProc nrepeat g) ! i ! r) e = 1)
       \<and> (\<forall>g'. set (executed (experiment_loop cfg cl numProc nrepeat g') ! i ! r)
              = set (executed (experiment_loop cfg cl numProc nrepeat g) ! i ! r))"
proof -
  let ?E = "my_experiments cfg cl numProc"
  have pos: "0 < numProc" using assms(3) by simp
  have order: "executed (experiment_loop cfg cl numProc nrepeat h) ! i ! q = rank0_order ?E h i"
    if "q < numProc" for h q
    using executed_is_rank0_order [OF assms(1) assms(2) that assms(4)] .
  have perm: "mset (rank0_order ?E h i) = mset ?E" for h
    unfolding rank0_order_def by (rule shuffles_perm)
  have once: "count_list (rank0_order ?E g i) e = 1" if "e \<in> set ?E" for e
  proof -
    have "count (mset (rank0_order ?E g i)) e = 1"
      unfolding perm using that distinct_my_experiments [of cfg cl numProc]
      by (simp add: distinct_count_atmost_1)
    then show ?thesis by (simp add: count_mset)
  qed
  have seeds: "set (rank0_order ?E g' i) = set (rank0_order ?E g i)" for g'
    using perm [of g'] perm [of g] by (metis mset_eq_setD)
  show ?thesis
    unfolding order [OF assms(3)] order [OF pos] using perm once seeds by blast
qed

lemma hypre_list: "my_experiments hypre_build no_options 2 = [HYPRE, TPETRA]"
  by (simp add: setup_defs hypre_build_def plain_build_def no_options_def)

text \<open>
  Two processes, HYPRE and Tpetra enabled in that order, one repetition in which process
  0 draws 0 and swaps the two experiments: process 1 runs Tpetra, then HYPRE, as process 0
  does.
\<close>

theorem same_order_on_all_processes_witness:
  "executed (experiment_loop hypre_build no_options 2 1 [0]) ! 0 ! 1 = [TPETRA, HYPRE]
   \<and> executed (experiment_loop hypre_build no_options 2 1 [0]) ! 0 ! 0 = [TPETRA, HYPRE]"
proof -
  have t: "HAVE_MUELU_TPETRA hypre_build"
    by (simp add: hypre_build_def plain_build_def)
  have ne: "my_experiments hypre_build no_options 2 \<noteq> []"
    by (simp add: hypre_list)
  have lt: "(1::nat) < 2" "(0::nat) < 1"
    by simp_all
  from same_order_on_all_processes [OF t ne lt, where g = "[0]"]
  have "executed (experiment_loop hypre_build no_options 2 1 [0]) ! 0 ! 1
          = rank0_order (my_experiments hypre_build no_options 2) [0] 0"
    and "executed (experiment_loop hypre_build no_options 2 1 [0]) ! 0 ! 1
          = executed (experiment_loop hypre_build no_options 2 1 [0]) ! 0 ! 0"
    by blast+
  then show ?thesis unfolding hypre_list rank0_order_value by simp
qed

text \<open>The whole trace of that run.\<close>

lemma loop_value:
  "executed (experiment_loop hypre_build no_options 2 1 [0]) = [[[TPETRA, HYPRE], [TPETRA, HYPRE]]]"
proof -
  have c: "HAVE_MUELU_HYPRE hypre_build" "HAVE_MUELU_TPETRA hypre_build"
    by (simp_all add: hypre_build_def plain_build_def)
  have two: "replicate 2 [HYPRE, TPETRA] = [[HYPRE, TPETRA], [HYPRE, TPETRA]]"
    by (simp add: numeral_2_eq_2)
  show ?thesis
    by (simp add: experiment_loop_def hypre_list two repetition_def shuffle_def draw_def
        iter_swap_def broadcast_def Let_def c)
qed

subsection \<open>The check of the output vector\<close>

lemma foldl_plus_NaN: "foldl plus_Scalar NaN xs = NaN"
  by (induction xs) simp_all

lemma norm2_NaN: "0 < n \<Longrightarrow> norm2 (replicate n NaN) = NaN"
  by (cases n) (simp_all add: norm2_def foldl_plus_NaN)

lemma putScalar_replicate: "putScalar v xs = replicate (length xs) v"
  by (simp add: putScalar_def map_replicate_const)

lemma length_update: "length (update alpha a beta this) = min (length this) (length a)"
  by (simp add: update_def)

lemma check_norms_frame:
  "xt (check_norms cfg ren e v) = xt v" "yt_baseline (check_norms cfg ren e v) = yt_baseline v"
  by (simp_all add: check_norms_def Let_def)

lemma invoke_frame:
  "xt (invoke cfg spmv e v) = xt v" "yt_baseline (invoke cfg spmv e v) = yt_baseline v"
  "cout (invoke cfg spmv e v) = cout v"
  by (simp_all add: invoke_def)

lemma one_experiment_frame:
  "xt (one_experiment cfg ren spmv v e) = xt v"
  "yt_baseline (one_experiment cfg ren spmv v e) = yt_baseline v"
  by (simp_all add: one_experiment_def check_norms_frame invoke_frame)

lemma experiments_frame:
  "xt (foldl (one_experiment cfg ren spmv) v es) = xt v
   \<and> yt_baseline (foldl (one_experiment cfg ren spmv) v es) = yt_baseline v"
  by (induction es arbitrary: v) (simp_all add: one_experiment_frame)

text \<open>
  C8, as amended. In a build with Tpetra, for one experiment \<open>e\<close> on the vectors \<open>v\<close>,
  with \<open>w\<close> the output buffer as the backend leaves it. When norm reporting is switched
  on: the driver reports the 2-norm of \<open>w\<close>, the 2-norm of the difference of \<open>w\<close> and
  the baseline vector, the 2-norm of the baseline vector, and whether the norm of \<open>w\<close>
  taken through the Xpetra handle equals the norm taken through the Tpetra handle; then
  the buffer is all NaN. When reporting is off, which is the default, nothing is
  reported and the buffer stays as the backend left it. Over the whole loop the baseline
  vector is what the plain Tpetra backend computed once before the loop when reporting
  is on.
\<close>

theorem norm_check:
  assumes "HAVE_MUELU_TPETRA cfg" "w = yt (invoke cfg spmv e v)"
    and "s = one_experiment cfg report_error_norms spmv v e"
  shows "(report_error_norms \<longrightarrow>
            yt s = replicate (min (length w) (length (yt_baseline v))) NaN
          \<and> cout s = cout v @
               [\<lparr> ExperimentID = e,
                   y_err = norm2 (update (Num (- 1)) (yt_baseline v) (Num 1) w),
                   y_norm2 = norm2 w,
                   y_baseline_norm2 = norm2 (yt_baseline v),
                   ptr_eq_mv = equal_Scalar (norm2 w) (norm2 w),
                   y_mv_norm2_next_itr = norm2 (yt s) \<rparr>])
       \<and> (\<not> report_error_norms \<longrightarrow> yt s = w \<and> cout s = cout v)
       \<and> yt_baseline (run_experiments cfg report_error_norms spmv orders v)
            = (if report_error_norms then spmv TPETRA (xt v) (yt_baseline v) else yt_baseline v)"
proof -
  have on: "yt s = replicate (min (length w) (length (yt_baseline v))) NaN
          \<and> cout s = cout v @
               [\<lparr> ExperimentID = e,
                   y_err = norm2 (update (Num (- 1)) (yt_baseline v) (Num 1) w),
                   y_norm2 = norm2 w,
                   y_baseline_norm2 = norm2 (yt_baseline v),
                   ptr_eq_mv = equal_Scalar (norm2 w) (norm2 w),
                   y_mv_norm2_next_itr = norm2 (yt s) \<rparr>]"
    if report_error_norms
    unfolding assms(3) one_experiment_def check_norms_def error_check_y_def
    using that assms(1)
    by (simp add: Let_def invoke_frame putScalar_replicate length_update assms(2))
  have off: "yt s = w \<and> cout s = cout v" if "\<not> report_error_norms"
    unfolding assms(3) one_experiment_def check_norms_def
    using that by (simp add: invoke_frame assms(2))
  have base: "yt_baseline (run_experiments cfg report_error_norms spmv orders v)
            = (if report_error_norms then spmv TPETRA (xt v) (yt_baseline v) else yt_baseline v)"
    unfolding run_experiments_def
    using assms(1) by (simp add: experiments_frame compute_baseline_def)
  from on off base show ?thesis by blast
qed

text \<open>
  The claim as stated fails in two ways. With reporting off, after the Tpetra backend
  has run on the identity matrix the buffer holds 1, not NaN, and no line is printed.
  With reporting on and a KokkosKernels backend that returns twice the baseline, the norm
  is 2 and the baseline norm is 1, and the flag printed is true: it compares the norm of
  the output vector with itself, not with the baseline norm.
\<close>

theorem norm_check_counterexample:
  "yt (one_experiment plain_build False identity_kernels (initial_vectors 1 1) TPETRA) = [Num 1]
   \<and> cout (one_experiment plain_build False identity_kernels (initial_vectors 1 1) TPETRA) = []
   \<and> cout (run_experiments plain_build True doubling_KK [[KK]] (initial_vectors 1 1))
       = [\<lparr> ExperimentID = KK, y_err = Num 1, y_norm2 = Num 2, y_baseline_norm2 = Num 1,
             ptr_eq_mv = True, y_mv_norm2_next_itr = NaN \<rparr>]"
  by (simp add: one_experiment_def invoke_def check_norms_def error_check_y_def
      run_experiments_def compute_baseline_def initial_vectors_def putScalar_def
      update_def norm2_def plain_build_def identity_kernels_def doubling_KK_def Let_def)

text \<open>
  The amended statement with reporting on, at the same doubling backend: the buffer is
  NaN afterwards, and the baseline is the vector of ones.
\<close>

theorem norm_check_witness:
  "yt (one_experiment plain_build True doubling_KK (initial_vectors 1 1) KK) = [NaN]
   \<and> yt_baseline (run_experiments plain_build True doubling_KK [[KK]] (initial_vectors 1 1)) = [Num 1]"
  using norm_check [of plain_build "[Num 2]" doubling_KK KK "initial_vectors 1 1" _ True "[[KK]]",
      OF _ _ refl]
  by (simp add: invoke_def initial_vectors_def putScalar_def plain_build_def doubling_KK_def)


text \<open>
  With reporting on, a backend that leaves a buffer of NaN untouched shows in the next
  line: the norm reported for it is NaN.
\<close>

lemma noop_backend_detected:
  assumes "HAVE_MUELU_TPETRA cfg" "yt v = replicate m NaN" "0 < m"
    and "spmv e (xt v) (yt v) = yt v"
  shows "y_norm2 (last (cout (one_experiment cfg True spmv v e))) = NaN"
proof -
  have "yt (invoke cfg spmv e v) = replicate m NaN"
    using assms(2,4) by (simp add: invoke_def)
  then show ?thesis
    using assms(1,3)
    by (simp add: one_experiment_def check_norms_def error_check_y_def Let_def norm2_NaN)
qed


section \<open>The contiguous-map builder: results\<close>

lemma rcp_new_old: "rcp_new mp h = (h', a) \<Longrightarrow> b < length h \<Longrightarrow> h' ! b = h ! b"
  by (auto simp: rcp_new_def nth_append)

lemma rcp_new_at: "rcp_new mp h = (h', a) \<Longrightarrow> h' ! a = mp \<and> a = length h \<and> length h' = Suc (length h)"
  by (auto simp: rcp_new_def)

lemma make_row_map_old:
  assumes "make_row_map h M = (h1, crow)" "b < length h"
  shows "h1 ! b = h ! b" "length h \<le> length h1"
  using assms by (auto simp: make_row_map_def rcp_new_def nth_append split: if_splits)

lemma make_domain_and_column_map_old:
  assumes "make_domain_and_column_map h M = (h2, cdom, ccol)" "b < length h"
  shows "h2 ! b = h ! b"
  using assms
  by (auto simp: make_domain_and_column_map_def rcp_new_def nth_append Let_def split: if_splits)

text \<open>
  C4. When the row map is contiguous, the row map returned is the row map of the matrix,
  the same address. When the domain map is contiguous, the domain and column maps
  returned are those of the matrix. When both are, the store is the same afterwards; in
  every case no map that was in the store is changed.
\<close>

theorem contiguous_maps_reused:
  assumes "RowMap M < length h" "DomainMap M < length h" "ColumnMap M < length h"
    and "MakeContiguousMaps h M = (h', res)"
  shows "(isContiguous (h ! RowMap M) \<longrightarrow> ContiguousRowMap res = RowMap M)
       \<and> (isContiguous (h ! DomainMap M) \<longrightarrow>
            ContiguousDomainMap res = DomainMap M \<and> ContiguousColumnMap res = ColumnMap M)
       \<and> (isContiguous (h ! RowMap M) \<and> isContiguous (h ! DomainMap M) \<longrightarrow> h' = h)
       \<and> (\<forall>b<length h. h' ! b = h ! b)"
proof -
  obtain h1 crow where r: "make_row_map h M = (h1, crow)" by (cases "make_row_map h M")
  obtain h2 cdom ccol where d: "make_domain_and_column_map h1 M = (h2, cdom, ccol)"
    by (cases "make_domain_and_column_map h1 M")
  from assms(4) have h': "h' = h2"
    and res: "res = \<lparr> ContiguousRowMap = crow, ContiguousColumnMap = ccol,
                      ContiguousDomainMap = cdom \<rparr>"
    by (simp_all add: MakeContiguousMaps_def r d)
  have dom1: "h1 ! DomainMap M = h ! DomainMap M"
    using make_row_map_old(1) [OF r assms(2)] .
  have a: "crow = RowMap M" "h1 = h" if "isContiguous (h ! RowMap M)"
    using r that by (simp_all add: make_row_map_def)
  have b: "cdom = DomainMap M" "ccol = ColumnMap M" "h2 = h1" if "isContiguous (h ! DomainMap M)"
    using d that dom1 by (simp_all add: make_domain_and_column_map_def)
  have c: "h' ! b = h ! b" if "b < length h" for b
  proof -
    have "b < length h1" using make_row_map_old(2) [OF r that] that by simp
    from make_domain_and_column_map_old [OF d this] make_row_map_old(1) [OF r that]
    show ?thesis by (simp add: h')
  qed
  show ?thesis using a b c by (simp add: res h')
qed


text \<open>A matrix whose three maps are one contiguous map: all three come back.\<close>

theorem contiguous_maps_reused_witness:
  "MakeContiguousMaps linear_store linear_matrix =
     (linear_store, \<lparr> ContiguousRowMap = 0, ContiguousColumnMap = 0, ContiguousDomainMap = 0 \<rparr>)"
proof -
  obtain h' res where r: "MakeContiguousMaps linear_store linear_matrix = (h', res)"
    by (cases "MakeContiguousMaps linear_store linear_matrix")
  have c: "isContiguous (linear_store ! 0)"
    by (simp add: linear_store_def contiguous_map_def)
  from contiguous_maps_reused [of linear_matrix linear_store h' res] r c
  have "h' = linear_store" "ContiguousRowMap res = 0" "ContiguousDomainMap res = 0"
    "ContiguousColumnMap res = 0"
    by (simp_all add: linear_matrix_def linear_store_def)
  then show ?thesis using r by (cases res) simp
qed

lemma concat_contiguous_runs:
  "concat (contiguous_runs a ns) = [a ..< a + sum_list ns]"
proof (induction ns arbitrary: a)
  case Nil
  then show ?case by simp
next
  case (Cons n ns)
  have "[a ..< a + n] @ [a + n ..< a + n + sum_list ns] = [a ..< a + n + sum_list ns]"
    by (metis le_add1 upt_add_eq_append)
  then show ?case by (simp add: Cons.IH add.assoc)
qed

lemma length_contiguous_runs: "map length (contiguous_runs a ns) = ns"
  by (induction ns arbitrary: a) simp_all

lemma contiguous_runs_are_runs:
  "gs \<in> set (contiguous_runs a ns) \<Longrightarrow> \<exists>b n. gs = [b ..< b + n]"
  by (induction ns arbitrary: a) auto

lemma contiguous_run_upt: "contiguous_run (map int [b ..< b + n])"
proof (cases n)
  case 0
  then show ?thesis by (simp add: contiguous_run_def)
next
  case (Suc k)
  then have "[b ..< b + n] = b # [Suc b ..< b + n]"
    by (intro upt_conv_Cons) simp
  then have hd: "hd (map int [b ..< b + n]) = int b"
    by (simp only: list.map list.sel)
  show ?thesis
    unfolding contiguous_run_def hd
    by (rule nth_equalityI) simp_all
qed

lemma contiguous_map_lists:
  assumes "gs \<in> set (LocalElementList (contiguous_map g ns))"
  shows "distinct gs \<and> contiguous_run gs"
proof -
  from assms obtain r where r: "r \<in> set (contiguous_runs 0 ns)" "gs = map int r"
    by (auto simp: contiguous_map_def)
  from contiguous_runs_are_runs [OF r(1)] obtain b n where "r = [b ..< b + n]" by blast
  then show ?thesis using r(2) by (simp add: contiguous_run_upt distinct_map)
qed

lemma contiguous_map_concat:
  "concat (LocalElementList (contiguous_map g ns)) = map int [0 ..< sum_list ns]"
proof -
  have "concat (map (map int) (contiguous_runs 0 ns)) = map int (concat (contiguous_runs 0 ns))"
    by (simp add: map_concat)
  then show ?thesis by (simp add: contiguous_map_def concat_contiguous_runs)
qed

lemma contiguous_map_lengths:
  "map length (LocalElementList (contiguous_map g ns)) = ns"
proof -
  have "map length (map (map int) (contiguous_runs 0 ns)) = map length (contiguous_runs 0 ns)"
    by simp
  then show ?thesis by (simp add: contiguous_map_def length_contiguous_runs)
qed

lemma sum_list_lengths: "sum_list (map length xss) = length (concat xss)"
  by (simp add: length_concat)

lemma map_of_zip_inj:
  assumes "length xs = length ys" "distinct xs" "distinct ys" "a \<in> set xs" "b \<in> set xs"
    and "map_of (zip xs ys) a = map_of (zip xs ys) b"
  shows "a = b"
proof -
  from assms(4,5) obtain i j where i: "i < length xs" "xs ! i = a" and j: "j < length xs" "xs ! j = b"
    by (auto simp: in_set_conv_nth)
  have "map_of (zip xs ys) a = Some (ys ! i)"
    using map_of_zip_nth [OF assms(1) assms(2)] i assms(1) by auto
  moreover have "map_of (zip xs ys) b = Some (ys ! j)"
    using map_of_zip_nth [OF assms(1) assms(2)] j assms(1) by auto
  ultimately have "ys ! i = ys ! j" using assms(6) by simp
  then have "i = j" using assms(1,3) i(1) j(1) by (simp add: nth_eq_iff_index_eq)
  then show ?thesis using i(2) j(2) by simp
qed

lemma doImport_distinct:
  assumes "length (concat (LocalElementList source)) = length (concat vals)"
    and "distinct (concat (LocalElementList source))" "distinct (concat vals)"
    and "gs \<in> set (LocalElementList target)" "distinct gs"
    and "set gs \<subseteq> set (concat (LocalElementList source))"
  shows "distinct (map (\<lambda>g. case map_of (zip (concat (LocalElementList source)) (concat vals)) g of
                      Some v \<Rightarrow> v | None \<Rightarrow> 0) gs)"
proof -
  let ?olds = "concat (LocalElementList source)" and ?news = "concat vals"
  let ?f = "\<lambda>g. case map_of (zip ?olds ?news) g of Some v \<Rightarrow> v | None \<Rightarrow> 0"
  have "inj_on ?f (set gs)"
  proof (rule inj_onI)
    fix a b assume a: "a \<in> set gs" and b: "b \<in> set gs" and eq: "?f a = ?f b"
    from a b assms(6) have mem: "a \<in> set ?olds" "b \<in> set ?olds" by blast+
    then obtain va vb where v: "map_of (zip ?olds ?news) a = Some va"
        "map_of (zip ?olds ?news) b = Some vb"
      using assms(1) by (metis map_of_zip_is_Some not_Some_eq)
    with eq have "map_of (zip ?olds ?news) a = map_of (zip ?olds ?news) b" by simp
    from map_of_zip_inj [OF assms(1) assms(2) assms(3) mem this] show "a = b" .
  qed
  then show ?thesis using assms(5) by (simp add: distinct_map)
qed


lemma MakeContiguousMaps_renumbering:
  assumes "RowMap M < length h" "DomainMap M < length h" "ColumnMap M < length h"
    and "\<not> isContiguous (h ! RowMap M)" "\<not> isContiguous (h ! DomainMap M)"
  shows "MakeContiguousMaps h M =
     (h @ [contiguous_map (GlobalNumElements (h ! RowMap M)) (LocalNumElements (h ! RowMap M)),
           contiguous_map (GlobalNumElements (h ! DomainMap M)) (LocalNumElements (h ! DomainMap M)),
           map_of_lists (GlobalNumElements (h ! ColumnMap M))
             (if has_importer M
              then doImport (h ! DomainMap M)
                     (LocalElementList (contiguous_map (GlobalNumElements (h ! DomainMap M))
                                          (LocalNumElements (h ! DomainMap M))))
                     (h ! ColumnMap M)
              else LocalElementList (contiguous_map (GlobalNumElements (h ! DomainMap M))
                                       (LocalNumElements (h ! DomainMap M))))],
      \<lparr> ContiguousRowMap = length h, ContiguousColumnMap = length h + 2,
        ContiguousDomainMap = length h + 1 \<rparr>)"
  using assms
  by (simp add: MakeContiguousMaps_def make_row_map_def make_domain_and_column_map_def
      rcp_new_def nth_append Let_def)

text \<open>
  C5, as amended. For a matrix whose row map and domain map are not contiguous, whose
  domain map holds each identifier once and whose column map holds, on each process,
  distinct identifiers of the domain map: the new row map and the new domain map each
  have the global element count of the old one and as many identifiers on each process,
  every local index has its own identifier, the identifiers of each process form one
  contiguous run, and the runs follow each other from 0. The new column map has the
  global element count of the old one and every local index has its own identifier; with
  an importer it has as many identifiers on each process as the old one. Its identifiers
  need not form a run.
\<close>

theorem renumbered_maps:
  assumes "RowMap M < length h" "DomainMap M < length h" "ColumnMap M < length h"
    and "\<not> isContiguous (h ! RowMap M)" "\<not> isContiguous (h ! DomainMap M)"
    and "distinct (concat (LocalElementList (h ! DomainMap M)))"
    and "\<forall>gs\<in>set (LocalElementList (h ! ColumnMap M)).
           distinct gs \<and> set gs \<subseteq> set (concat (LocalElementList (h ! DomainMap M)))"
    and "MakeContiguousMaps h M = (h', res)"
  shows "renumbered (h ! RowMap M) (h' ! ContiguousRowMap res)
       \<and> renumbered (h ! DomainMap M) (h' ! ContiguousDomainMap res)
       \<and> GlobalNumElements (h' ! ContiguousColumnMap res) = GlobalNumElements (h ! ColumnMap M)
       \<and> (\<forall>gs\<in>set (LocalElementList (h' ! ContiguousColumnMap res)). distinct gs)
       \<and> (has_importer M \<longrightarrow>
            map length (LocalElementList (h' ! ContiguousColumnMap res))
              = map length (LocalElementList (h ! ColumnMap M)))"
proof -
  let ?row = "h ! RowMap M" and ?dom = "h ! DomainMap M" and ?col = "h ! ColumnMap M"
  let ?R = "contiguous_map (GlobalNumElements ?row) (LocalNumElements ?row)"
  let ?D = "contiguous_map (GlobalNumElements ?dom) (LocalNumElements ?dom)"
  let ?C = "map_of_lists (GlobalNumElements ?col)
             (if has_importer M then doImport ?dom (LocalElementList ?D) ?col
              else LocalElementList ?D)"
  from MakeContiguousMaps_renumbering [OF assms(1-5)] assms(8)
  have h': "h' = h @ [?R, ?D, ?C]"
    and res: "res = \<lparr> ContiguousRowMap = length h, ContiguousColumnMap = length h + 2,
        ContiguousDomainMap = length h + 1 \<rparr>"
    by simp_all
  have at: "h' ! ContiguousRowMap res = ?R" "h' ! ContiguousDomainMap res = ?D"
    "h' ! ContiguousColumnMap res = ?C"
    by (simp_all add: h' res nth_append)
  have new_map: "GlobalNumElements (contiguous_map (GlobalNumElements mp) (LocalNumElements mp))
         = GlobalNumElements mp
       \<and> map length (LocalElementList (contiguous_map (GlobalNumElements mp) (LocalNumElements mp)))
         = map length (LocalElementList mp)
       \<and> (\<forall>gs\<in>set (LocalElementList (contiguous_map (GlobalNumElements mp) (LocalNumElements mp))).
            distinct gs \<and> contiguous_run gs)
       \<and> concat (LocalElementList (contiguous_map (GlobalNumElements mp) (LocalNumElements mp)))
         = map int [0 ..< length (concat (LocalElementList mp))]" for mp
    using contiguous_map_lists [of _ "GlobalNumElements mp" "LocalNumElements mp"]
    by (simp add: contiguous_map_lengths contiguous_map_concat)
      (simp add: contiguous_map_def LocalNumElements_def sum_list_lengths)
  have colG: "GlobalNumElements ?C = GlobalNumElements ?col"
    by (simp add: map_of_lists_def)
  have colD: "distinct gs" if gs: "gs \<in> set (LocalElementList ?C)" for gs
  proof (cases "has_importer M")
    case False
    then have "gs \<in> set (LocalElementList ?D)" using gs by (simp add: map_of_lists_def)
    then show ?thesis using new_map [of ?dom] by blast
  next
    case True
    then have "gs \<in> set (doImport ?dom (LocalElementList ?D) ?col)"
      using gs by (simp add: map_of_lists_def)
    then obtain os where os: "os \<in> set (LocalElementList ?col)"
      and gs_eq: "gs = map (\<lambda>g. case map_of (zip (concat (LocalElementList ?dom))
                                   (concat (LocalElementList ?D))) g of
                      Some v \<Rightarrow> v | None \<Rightarrow> 0) os"
      by (auto simp: doImport_def)
    have len: "length (concat (LocalElementList ?dom)) = length (concat (LocalElementList ?D))"
      using new_map [of ?dom] by simp
    have dn: "distinct (concat (LocalElementList ?D))"
      using new_map [of ?dom] by (simp add: distinct_map)
    from assms(7) os have "distinct os" "set os \<subseteq> set (concat (LocalElementList ?dom))"
      by blast+
    from doImport_distinct [OF len assms(6) dn os this] show ?thesis
      unfolding gs_eq .
  qed
  have colL: "map length (LocalElementList ?C) = map length (LocalElementList ?col)"
    if "has_importer M"
    using that by (simp add: map_of_lists_def doImport_def)
  have "renumbered ?row ?R" "renumbered ?dom ?D"
    unfolding renumbered_def using new_map [of ?row] new_map [of ?dom] by blast+
  then show ?thesis
    unfolding at using colG colD colL by blast
qed

lemma halo_result:
  "MakeContiguousMaps halo_store halo_matrix =
     (halo_store @
        [\<lparr> GlobalNumElements = 4, LocalElementList = [[0, 1], [2, 3]], isContiguous = True \<rparr>,
         \<lparr> GlobalNumElements = 4, LocalElementList = [[0, 1], [2, 3]], isContiguous = True \<rparr>,
         \<lparr> GlobalNumElements = 6, LocalElementList = [[0, 1, 3], [2, 3, 0]],
           isContiguous = False \<rparr>],
      \<lparr> ContiguousRowMap = 2, ContiguousColumnMap = 4, ContiguousDomainMap = 3 \<rparr>)"
  by (simp add: MakeContiguousMaps_def make_row_map_def make_domain_and_column_map_def
      rcp_new_def halo_store_def halo_matrix_def contiguous_map_def map_of_lists_def
      doImport_def LocalNumElements_def Let_def)

text \<open>
  The claim as stated fails for the column map. In the two-process example the new
  column map of process 0 holds 0, 1 and 3: the two columns it owns and the halo column,
  which carries the new identifier that process 1 gave it. The three do not form a run.
\<close>

theorem renumbered_maps_counterexample:
  "LocalElementList (fst (MakeContiguousMaps halo_store halo_matrix)
      ! ContiguousColumnMap (snd (MakeContiguousMaps halo_store halo_matrix)))
     = [[0, 1, 3], [2, 3, 0]]
   \<and> \<not> contiguous_run [0, 1, 3]
   \<and> \<not> renumbered (halo_store ! ColumnMap halo_matrix)
         (fst (MakeContiguousMaps halo_store halo_matrix)
            ! ContiguousColumnMap (snd (MakeContiguousMaps halo_store halo_matrix)))"
  unfolding halo_result
  by (simp add: halo_store_def halo_matrix_def renumbered_def contiguous_run_def)

text \<open>The amended statement on the same example: the new domain map.\<close>

theorem renumbered_maps_witness:
  "renumbered \<lparr> GlobalNumElements = 4, LocalElementList = [[10, 30], [20, 40]],
                 isContiguous = False \<rparr>
              \<lparr> GlobalNumElements = 4, LocalElementList = [[0, 1], [2, 3]],
                 isContiguous = True \<rparr>"
proof -
  have refs: "RowMap halo_matrix < length halo_store" "DomainMap halo_matrix < length halo_store"
    "ColumnMap halo_matrix < length halo_store"
    by (simp_all add: halo_store_def halo_matrix_def)
  have nc: "\<not> isContiguous (halo_store ! RowMap halo_matrix)"
    "\<not> isContiguous (halo_store ! DomainMap halo_matrix)"
    by (simp_all add: halo_store_def halo_matrix_def)
  have d: "distinct (concat (LocalElementList (halo_store ! DomainMap halo_matrix)))"
    by (simp add: halo_store_def halo_matrix_def)
  have c: "\<forall>gs\<in>set (LocalElementList (halo_store ! ColumnMap halo_matrix)).
      distinct gs \<and> set gs \<subseteq> set (concat (LocalElementList (halo_store ! DomainMap halo_matrix)))"
    by (simp add: halo_store_def halo_matrix_def)
  from renumbered_maps [OF refs nc d c halo_result]
  have "renumbered (halo_store ! RowMap halo_matrix)
      ((halo_store @
        [\<lparr> GlobalNumElements = 4, LocalElementList = [[0, 1], [2, 3]], isContiguous = True \<rparr>,
         \<lparr> GlobalNumElements = 4, LocalElementList = [[0, 1], [2, 3]], isContiguous = True \<rparr>,
         \<lparr> GlobalNumElements = 6, LocalElementList = [[0, 1, 3], [2, 3, 0]],
           isContiguous = False \<rparr>]) ! 2)"
    by simp
  then show ?thesis
    by (simp add: halo_store_def halo_matrix_def)
qed


end
